theory Spec2Isabelle
  imports Complex_Main
begin

section \<open>Numbers and rounding\<close>

text \<open>
  The Python sources compute with \<open>int\<close> and \<open>float\<close> values. The embedding uses
  exact real arithmetic for both: every score is the real number that the Python
  expression denotes when no binary rounding error is made. The only rounding that is
  kept is the explicit call \<open>round(x, 1)\<close>, which rounds to one decimal and breaks an
  exact tie towards the even digit.

  A real number stands for a finite Python number within the range of a float. An
  \<open>int\<close> beyond that range, on which Python's conversion to \<open>float\<close> raises
  \<open>OverflowError\<close>, the infinities and NaN are not values of the real-valued
  definitions; \<open>in_float_range\<close> marks the range where a statement depends on it. The
  conversion itself is modelled for the \<open>int\<close> arguments of the keyword difficulty
  (\<open>int_truediv\<close>).
\<close>

definition round_half_even :: "real \<Rightarrow> int" where
  "round_half_even y =
     (let f = \<lfloor>y\<rfloor>; d = y - of_int f
      in if d < 1/2 then f else if 1/2 < d then f + 1 else if even f then f else f + 1)"

definition py_round1 :: "real \<Rightarrow> real" where
  \<comment> \<open>\<open>round(x, 1)\<close>\<close>
  "py_round1 x = of_int (round_half_even (x * 10)) / 10"

definition one_decimal :: "real \<Rightarrow> bool" where
  \<comment> \<open>the value has at most one decimal digit\<close>
  "one_decimal x = (of_int \<lfloor>x * 10\<rfloor> = x * 10)"

definition float_overflow_bound :: real where
  \<comment> \<open>the least magnitude that rounds to a float beyond the largest one,
      \<open>sys.float_info.max = 2 ^ 1024 - 2 ^ 971\<close>\<close>
  "float_overflow_bound = 2 ^ 1024 - 2 ^ 970"

definition in_float_range :: "real \<Rightarrow> bool" where
  \<comment> \<open>the number converts to a float without \<open>OverflowError\<close>\<close>
  "in_float_range x = (\<bar>x\<bar> < float_overflow_bound)"

definition dict_get :: "'a option \<Rightarrow> 'a \<Rightarrow> 'a" where
  \<comment> \<open>\<open>d.get(key, default)\<close>, the field being \<open>None\<close> when the key is absent\<close>
  "dict_get v d = (case v of None \<Rightarrow> d | Some x \<Rightarrow> x)"

section \<open>aso\_scorer.py: weights and benchmarks\<close>

text \<open>A dictionary keyed by the six dimension names.\<close>

record 'a by_dimension =
  metadata_quality :: 'a
  ratings_reviews :: 'a
  keyword_performance :: 'a
  conversion_metrics :: 'a
  technical_performance :: 'a
  visual_optimization :: 'a

definition WEIGHTS :: "int by_dimension" where
  "WEIGHTS = \<lparr>metadata_quality = 20, ratings_reviews = 20, keyword_performance = 20,
     conversion_metrics = 20, technical_performance = 15, visual_optimization = 5\<rparr>"

definition GOOGLE_WEIGHTS :: "int by_dimension" where
  "GOOGLE_WEIGHTS = \<lparr>metadata_quality = 20, ratings_reviews = 20, keyword_performance = 20,
     conversion_metrics = 15, technical_performance = 20, visual_optimization = 5\<rparr>"

definition APPLE_WEIGHTS :: "int by_dimension" where
  "APPLE_WEIGHTS = \<lparr>metadata_quality = 20, ratings_reviews = 20, keyword_performance = 20,
     conversion_metrics = 20, technical_performance = 10, visual_optimization = 10\<rparr>"

definition sum_values :: "int by_dimension \<Rightarrow> int" where
  \<comment> \<open>\<open>sum(w.values())\<close>\<close>
  "sum_values w = metadata_quality w + ratings_reviews w + keyword_performance w +
     conversion_metrics w + technical_performance w + visual_optimization w"

text \<open>The entries of \<open>BENCHMARKS\<close> and \<open>TECHNICAL_BENCHMARKS\<close> that the scorers read.\<close>

abbreviation (input) "title_keyword_usage_min \<equiv> (1::real)"
abbreviation (input) "title_keyword_usage_target \<equiv> (2::real)"
abbreviation (input) "description_length_min \<equiv> (500::real)"
abbreviation (input) "description_length_target \<equiv> (2000::real)"
abbreviation (input) "keyword_density_min \<equiv> (2::real)"
abbreviation (input) "keyword_density_optimal \<equiv> (5::real)"
abbreviation (input) "average_rating_min \<equiv> (3.5::real)"
abbreviation (input) "average_rating_target \<equiv> (4.5::real)"
abbreviation (input) "ratings_count_min \<equiv> (100::real)"
abbreviation (input) "ratings_count_target \<equiv> (5000::real)"
abbreviation (input) "keywords_top_10_min \<equiv> (2::real)"
abbreviation (input) "keywords_top_10_target \<equiv> (10::real)"
abbreviation (input) "keywords_top_50_min \<equiv> (5::real)"
abbreviation (input) "keywords_top_50_target \<equiv> (20::real)"
abbreviation (input) "conversion_rate_min \<equiv> (0.02::real)"
abbreviation (input) "conversion_rate_target \<equiv> (0.10::real)"
abbreviation (input) "crash_rate_good \<equiv> (1.0::real)"
abbreviation (input) "crash_rate_acceptable \<equiv> (2.0::real)"
abbreviation (input) "anr_rate_good \<equiv> (0.5::real)"
abbreviation (input) "anr_rate_acceptable \<equiv> (1.0::real)"
abbreviation (input) "battery_impact_good \<equiv> (5.0::real)"
abbreviation (input) "battery_impact_acceptable \<equiv> (10.0::real)"

section \<open>aso\_scorer.py: the metric bundles\<close>

text \<open>
  Each bundle is a dictionary whose keys are all optional; a field is \<open>None\<close> when
  the key is absent and the scorer then reads its default.
\<close>

record metadata_bundle =
  title_keyword_count :: "real option"
  title_length :: "real option"
  description_length :: "real option"
  description_quality :: "real option"
  keyword_density :: "real option"

record ratings_bundle =
  average_rating :: "real option"
  total_ratings :: "real option"
  recent_ratings_30d :: "real option"

record keyword_bundle =
  top_10 :: "real option"
  top_50 :: "real option"
  top_100 :: "real option"
  improving_keywords :: "real option"

record conversion_bundle =
  impression_to_install :: "real option"
  downloads_last_30_days :: "real option"
  downloads_trend :: "string option"

record technical_bundle =
  crash_rate :: "real option"
  anr_rate :: "real option"
  battery_impact :: "real option"

record visual_bundle =
  has_captions :: "bool option"
  cpp_count :: "real option"
  has_video :: "bool option"

text \<open>The numbers that a scorer reads from its bundle are within the range of a float.\<close>

definition metadata_in_range :: "metadata_bundle \<Rightarrow> bool" where
  "metadata_in_range m =
     (in_float_range (dict_get (title_keyword_count m) 0)
      \<and> in_float_range (dict_get (title_length m) 0)
      \<and> in_float_range (dict_get (description_length m) 0)
      \<and> in_float_range (dict_get (description_quality m) 0)
      \<and> in_float_range (dict_get (keyword_density m) 0))"

definition ratings_in_range :: "ratings_bundle \<Rightarrow> bool" where
  "ratings_in_range r =
     (in_float_range (dict_get (average_rating r) 0)
      \<and> in_float_range (dict_get (total_ratings r) 0)
      \<and> in_float_range (dict_get (recent_ratings_30d r) 0))"

definition keyword_in_range :: "keyword_bundle \<Rightarrow> bool" where
  "keyword_in_range k =
     (in_float_range (dict_get (top_10 k) 0)
      \<and> in_float_range (dict_get (top_50 k) 0)
      \<and> in_float_range (dict_get (top_100 k) 0)
      \<and> in_float_range (dict_get (improving_keywords k) 0))"

definition conversion_in_range :: "conversion_bundle \<Rightarrow> bool" where
  "conversion_in_range c =
     (in_float_range (dict_get (impression_to_install c) 0)
      \<and> in_float_range (dict_get (downloads_last_30_days c) 0))"

section \<open>aso\_scorer.py: the six dimension scorers\<close>

definition score_metadata_quality :: "metadata_bundle \<Rightarrow> real" where
  "score_metadata_quality metadata =
     (let title_keywords = dict_get (title_keyword_count metadata) 0;
          title_len = dict_get (title_length metadata) 0;
          title_score = (if title_keywords \<ge> title_keyword_usage_target then 35
                         else if title_keywords \<ge> title_keyword_usage_min then 25
                         else 10);
          title_score = (if title_len > 25 then title_score + 0 else title_score - 5);
          desc_length = dict_get (description_length metadata) 0;
          desc_quality = dict_get (description_quality metadata) 0;
          desc_score = (if desc_length \<ge> description_length_target then 25
                        else if desc_length \<ge> description_length_min then 15
                        else 5);
          desc_score = desc_score + desc_quality * 10;
          density = dict_get (keyword_density metadata) 0;
          density_score =
            (if keyword_density_min \<le> density \<and> density \<le> keyword_density_optimal then 30
             else if density < keyword_density_min then (density / keyword_density_min) * 20
             else max (30 - ((density - keyword_density_optimal) * 5)) 0)
      in py_round1 (min title_score 35 + min desc_score 35 + density_score))"

definition rating_quality_score :: "real \<Rightarrow> real" where
  \<comment> \<open>the first \<open>if\<close> chain of \<open>score_ratings_reviews\<close>\<close>
  "rating_quality_score avg =
     (if avg \<ge> average_rating_target then 50
      else if avg \<ge> average_rating_min then
        30 + ((avg - average_rating_min) / (average_rating_target - average_rating_min)) * 20
      else if avg \<ge> 3.0 then 20
      else 10)"

definition rating_volume_score :: "real \<Rightarrow> real" where
  \<comment> \<open>the second \<open>if\<close> chain of \<open>score_ratings_reviews\<close>\<close>
  "rating_volume_score total_count =
     (if total_count \<ge> ratings_count_target then 30
      else if total_count \<ge> ratings_count_min then
        15 + ((total_count - ratings_count_min) / (ratings_count_target - ratings_count_min)) * 15
      else (total_count / ratings_count_min) * 15)"

definition rating_velocity_score :: "real \<Rightarrow> real" where
  \<comment> \<open>the third \<open>if\<close> chain of \<open>score_ratings_reviews\<close>\<close>
  "rating_velocity_score recent =
     (if recent > 100 then 20 else if recent > 50 then 15 else if recent > 10 then 10 else 5)"

definition score_ratings_reviews :: "ratings_bundle \<Rightarrow> real" where
  "score_ratings_reviews ratings =
     (let avg = dict_get (average_rating ratings) 0;
          total_count = dict_get (total_ratings ratings) 0;
          recent = dict_get (recent_ratings_30d ratings) 0;
          total_score = rating_quality_score avg + rating_volume_score total_count
                        + rating_velocity_score recent
      in py_round1 (min total_score 100))"

definition score_keyword_performance :: "keyword_bundle \<Rightarrow> real" where
  "score_keyword_performance kp =
     (let top_10_count = dict_get (top_10 kp) 0;
          top_50_count = dict_get (top_50 kp) 0;
          top_100_count = dict_get (top_100 kp) 0;
          improving = dict_get (improving_keywords kp) 0;
          top_10_score =
            (if top_10_count \<ge> keywords_top_10_target then 50
             else if top_10_count \<ge> keywords_top_10_min then
               25 + ((top_10_count - keywords_top_10_min)
                      / (keywords_top_10_target - keywords_top_10_min)) * 25
             else (top_10_count / keywords_top_10_min) * 25);
          top_50_score =
            (if top_50_count \<ge> keywords_top_50_target then 30
             else if top_50_count \<ge> keywords_top_50_min then
               15 + ((top_50_count - keywords_top_50_min)
                      / (keywords_top_50_target - keywords_top_50_min)) * 15
             else (top_50_count / keywords_top_50_min) * 15);
          coverage_score = min ((top_100_count / 30) * 10) 10;
          trend_score = (if improving > 5 then 10 else if improving > 0 then 5 else 0);
          total_score = top_10_score + top_50_score + coverage_score + trend_score
      in py_round1 (min total_score 100))"

definition score_conversion_metrics :: "conversion_bundle \<Rightarrow> real" where
  "score_conversion_metrics conversion =
     (let conversion_rate = dict_get (impression_to_install conversion) 0;
          downloads_30d = dict_get (downloads_last_30_days conversion) 0;
          trend = dict_get (downloads_trend conversion) ''stable'';
          conversion_score =
            (if conversion_rate \<ge> conversion_rate_target then 70
             else if conversion_rate \<ge> conversion_rate_min then
               35 + ((conversion_rate - conversion_rate_min)
                      / (conversion_rate_target - conversion_rate_min)) * 35
             else (conversion_rate / conversion_rate_min) * 35);
          velocity_score =
            (if downloads_30d > 10000 then 20 else if downloads_30d > 1000 then 15
             else if downloads_30d > 100 then 10 else 5);
          trend_score = (if trend = ''up'' then 10 else if trend = ''stable'' then 5 else 0);
          total_score = conversion_score + velocity_score + trend_score
      in py_round1 (min total_score 100))"

definition score_technical_performance :: "real \<Rightarrow> real \<Rightarrow> real \<Rightarrow> real" where
  "score_technical_performance crash anr battery =
     (let crash_score =
            (if crash \<le> crash_rate_good then 40.0
             else if crash \<le> crash_rate_acceptable then
               40.0 - ((crash - crash_rate_good) / (crash_rate_acceptable - crash_rate_good)) * 20.0
             else max (20.0 - ((crash - crash_rate_acceptable) * 10.0)) 0.0);
          anr_score =
            (if anr \<le> anr_rate_good then 35.0
             else if anr \<le> anr_rate_acceptable then
               35.0 - ((anr - anr_rate_good) / (anr_rate_acceptable - anr_rate_good)) * 17.5
             else max (17.5 - ((anr - anr_rate_acceptable) * 8.75)) 0.0);
          battery_score =
            (if battery \<le> battery_impact_good then 25.0
             else if battery \<le> battery_impact_acceptable then
               25.0 - ((battery - battery_impact_good)
                        / (battery_impact_acceptable - battery_impact_good)) * 12.5
             else max (12.5 - ((battery - battery_impact_acceptable) * 2.5)) 0.0);
          total_score = crash_score + anr_score + battery_score
      in py_round1 (min total_score 100.0))"

definition score_visual_optimization :: "bool \<Rightarrow> real \<Rightarrow> bool \<Rightarrow> real" where
  "score_visual_optimization captions cpp video =
     (let points = (0::real);
          points = (if captions then points + 3 else points);
          points = (if cpp > 0 then points + 1 else points);
          points = (if video then points + 1 else points)
      in py_round1 ((points / 5.0) * 100.0))"

definition technical_score_of :: "technical_bundle option \<Rightarrow> real" where
  \<comment> \<open>\<open>score_technical_performance(**technical_data)\<close>, or the neutral 50.0 without data\<close>
  "technical_score_of technical_data =
     (case technical_data of
        Some td \<Rightarrow> score_technical_performance (dict_get (crash_rate td) 0.0)
                     (dict_get (anr_rate td) 0.0) (dict_get (battery_impact td) 0.0)
      | None \<Rightarrow> 50.0)"

definition visual_score_of :: "visual_bundle option \<Rightarrow> real" where
  \<comment> \<open>\<open>score_visual_optimization(**visual_data)\<close>, or the neutral 50.0 without data\<close>
  "visual_score_of visual_data =
     (case visual_data of
        Some vd \<Rightarrow> score_visual_optimization (dict_get (has_captions vd) False)
                     (dict_get (cpp_count vd) 0) (dict_get (has_video vd) False)
      | None \<Rightarrow> 50.0)"

section \<open>aso\_scorer.py: the scorer object and the aggregation\<close>

record breakdown_entry =
  score :: real
  weight :: int
  weighted_contribution :: real
  data_provided :: "bool option"  \<comment> \<open>present for the technical and visual entries only\<close>

record ASOScorer =
  score_breakdown :: "breakdown_entry by_dimension option"  \<comment> \<open>\<open>None\<close> is the initial \<open>{}\<close>\<close>
  platform :: "string option"
  active_weights :: "int by_dimension"

text \<open>
  \<open>str.lower()\<close> on the ASCII letters. Code points outside ASCII are left unchanged:
  none of them lowers to a letter of \<open>apple\<close> or \<open>google\<close>.
\<close>

definition lower_char :: "char \<Rightarrow> char" where
  "lower_char c =
     (case map_of (zip ''ABCDEFGHIJKLMNOPQRSTUVWXYZ'' ''abcdefghijklmnopqrstuvwxyz'') c of
        Some l \<Rightarrow> l | None \<Rightarrow> c)"

definition lower :: "string \<Rightarrow> string" where
  "lower s = map lower_char s"

definition resolve_weights :: "string option \<Rightarrow> int by_dimension" where
  \<comment> \<open>\<open>_resolve_weights\<close>, reading \<open>self.platform\<close>\<close>
  "resolve_weights p =
     (if p = Some ''google'' then GOOGLE_WEIGHTS
      else if p = Some ''apple'' then APPLE_WEIGHTS
      else WEIGHTS)"

definition ASOScorer_init :: "string option \<Rightarrow> ASOScorer" where
  \<comment> \<open>\<open>__init__\<close>: \<open>platform.lower() if platform else None\<close>; the empty string is falsy\<close>
  "ASOScorer_init p =
     (let pl = (case p of None \<Rightarrow> None | Some s \<Rightarrow> if s = [] then None else Some (lower s))
      in \<lparr>score_breakdown = None, platform = pl, active_weights = resolve_weights pl\<rparr>)"

definition assess_health_status :: "real \<Rightarrow> string" where
  \<comment> \<open>\<open>_assess_health_status\<close>\<close>
  "assess_health_status overall =
     (if overall \<ge> 80 then ''Excellent - Top-tier ASO performance''
      else if overall \<ge> 65 then ''Good - Competitive ASO with room for improvement''
      else if overall \<ge> 50 then ''Fair - Needs strategic improvements''
      else ''Poor - Requires immediate ASO overhaul'')"

text \<open>
  The report of \<open>calculate_overall_score\<close>. Its fields \<open>recommendations\<close>,
  \<open>priority_actions\<close>, \<open>strengths\<close> and \<open>weaknesses\<close> are texts derived from the
  sub-scores after the overall score is fixed; they are not part of this record.
\<close>

record score_report =
  overall_score :: real
  health_status :: string
  report_platform :: string
  weights_used :: "int by_dimension"
  report_breakdown :: "breakdown_entry by_dimension"

definition breakdown_of :: "real \<Rightarrow> int \<Rightarrow> bool option \<Rightarrow> breakdown_entry" where
  \<comment> \<open>one entry of \<open>self.score_breakdown\<close>\<close>
  "breakdown_of s w dp =
     \<lparr>score = s, weight = w, weighted_contribution = py_round1 (s * (real_of_int w / 100)),
      data_provided = dp\<rparr>"

definition calculate_overall_score ::
  "ASOScorer \<Rightarrow> metadata_bundle \<Rightarrow> ratings_bundle \<Rightarrow> keyword_bundle \<Rightarrow> conversion_bundle \<Rightarrow>
   technical_bundle option \<Rightarrow> visual_bundle option \<Rightarrow> score_report \<times> ASOScorer" where
  "calculate_overall_score self metadata ratings kp conversion technical_data visual_data =
     (let weights = active_weights self;
          metadata_score = score_metadata_quality metadata;
          ratings_score = score_ratings_reviews ratings;
          keyword_score = score_keyword_performance kp;
          conversion_score = score_conversion_metrics conversion;
          technical_score = technical_score_of technical_data;
          visual_score = visual_score_of visual_data;
          overall =
            metadata_score * (real_of_int (metadata_quality weights) / 100) +
            ratings_score * (real_of_int (ratings_reviews weights) / 100) +
            keyword_score * (real_of_int (keyword_performance weights) / 100) +
            conversion_score * (real_of_int (conversion_metrics weights) / 100) +
            technical_score * (real_of_int (technical_performance weights) / 100) +
            visual_score * (real_of_int (visual_optimization weights) / 100);
          breakdown =
            \<lparr>metadata_quality = breakdown_of metadata_score (metadata_quality weights) None,
             ratings_reviews = breakdown_of ratings_score (ratings_reviews weights) None,
             keyword_performance = breakdown_of keyword_score (keyword_performance weights) None,
             conversion_metrics = breakdown_of conversion_score (conversion_metrics weights) None,
             technical_performance =
               breakdown_of technical_score (technical_performance weights)
                 (Some (technical_data \<noteq> None)),
             visual_optimization =
               breakdown_of visual_score (visual_optimization weights)
                 (Some (visual_data \<noteq> None))\<rparr>;
          self' = self\<lparr>score_breakdown := Some breakdown\<rparr>
      in (\<lparr>overall_score = py_round1 overall,
           health_status = assess_health_status overall,
           report_platform = (case platform self of Some s \<Rightarrow> if s = [] then ''default'' else s
                                                   | None \<Rightarrow> ''default''),
           weights_used = weights,
           report_breakdown = breakdown\<rparr>, self'))"

definition sub_scores :: "breakdown_entry by_dimension \<Rightarrow> real list" where
  \<comment> \<open>the six sub-scores of a breakdown, in the order of the dimensions\<close>
  "sub_scores b = [score (metadata_quality b), score (ratings_reviews b),
     score (keyword_performance b), score (conversion_metrics b),
     score (technical_performance b), score (visual_optimization b)]"

section \<open>keyword\_analyzer.py: the keyword evaluator\<close>

datatype py_error = ZeroDivisionError | ValueError | OverflowError

definition py_truediv :: "real \<Rightarrow> real \<Rightarrow> py_error + real" where
  \<comment> \<open>\<open>a / b\<close> with a divisor that is not a literal constant\<close>
  "py_truediv a b = (if b = 0 then Inl ZeroDivisionError else Inr (a / b))"

definition py_bind :: "py_error + 'a \<Rightarrow> ('a \<Rightarrow> py_error + 'b) \<Rightarrow> py_error + 'b" where
  \<comment> \<open>sequencing: an exception raised by the first step ends the computation\<close>
  "py_bind r f = (case r of Inl e \<Rightarrow> Inl e | Inr x \<Rightarrow> f x)"

text \<open>The thresholds of \<open>COMPETITION_THRESHOLDS\<close> and \<open>VOLUME_CATEGORIES\<close>.\<close>

abbreviation (input) "competition_low \<equiv> (1000::real)"
abbreviation (input) "competition_medium \<equiv> (5000::real)"
abbreviation (input) "competition_high \<equiv> (10000::real)"
abbreviation (input) "volume_very_low \<equiv> (1000::real)"
abbreviation (input) "volume_low \<equiv> (5000::real)"
abbreviation (input) "volume_medium \<equiv> (20000::real)"
abbreviation (input) "volume_high \<equiv> (100000::real)"

definition INTENT_CATEGORIES :: "(string \<times> string list) list" where
  \<comment> \<open>the dictionary in its insertion order, which is its iteration order\<close>
  "INTENT_CATEGORIES =
    [(''track'', [''track'', ''tracking'', ''monitor'', ''log'', ''record'', ''measure'', ''count'',
        ''diary'']),
     (''manage'', [''manage'', ''management'', ''organize'', ''organizer'', ''control'', ''handle'',
        ''coordinate'']),
     (''plan'', [''plan'', ''planner'', ''planning'', ''schedule'', ''scheduler'', ''calendar'',
        ''agenda'', ''timeline'']),
     (''create'', [''create'', ''creator'', ''make'', ''maker'', ''build'', ''builder'', ''design'',
        ''designer'', ''edit'', ''editor'']),
     (''learn'', [''learn'', ''learning'', ''study'', ''education'', ''course'', ''tutorial'',
        ''teach'', ''training'']),
     (''find'', [''find'', ''finder'', ''search'', ''discover'', ''locate'', ''lookup'', ''browse'',
        ''explore'']),
     (''compare'', [''compare'', ''comparison'', ''versus'', ''review'', ''rate'', ''rating'',
        ''rank'', ''ranking'']),
     (''share'', [''share'', ''sharing'', ''social'', ''connect'', ''collaborate'',
        ''collaboration'', ''team'', ''group'']),
     (''save'', [''save'', ''saving'', ''budget'', ''budgeting'', ''money'', ''finance'',
        ''financial'', ''expense'', ''cost'']),
     (''health'', [''health'', ''healthy'', ''fitness'', ''workout'', ''exercise'', ''diet'',
        ''nutrition'', ''wellness'', ''meditation'']),
     (''communicate'', [''chat'', ''message'', ''messaging'', ''call'', ''calling'', ''video'',
        ''voice'', ''talk'']),
     (''automate'', [''automate'', ''automation'', ''automatic'', ''auto'', ''smart'', ''ai'',
        ''intelligent'', ''reminder''])]"

record keyword_analysis =
  keyword :: string
  search_volume :: real
  volume_category :: string
  competing_apps :: real
  competition_level :: string
  relevance_score :: real
  difficulty_score :: real
  potential_score :: real
  recommendation :: string
  keyword_length :: nat
  is_long_tail :: bool

record KeywordAnalyzer =
  analyzed_keywords :: "string \<rightharpoonup> keyword_analysis"

definition KeywordAnalyzer_init :: KeywordAnalyzer where
  "KeywordAnalyzer_init = \<lparr>analyzed_keywords = Map.empty\<rparr>"

definition calculate_competition_level :: "real \<Rightarrow> string" where
  "calculate_competition_level apps =
     (if apps < competition_low then ''low''
      else if apps < competition_medium then ''medium''
      else if apps < competition_high then ''high''
      else ''very_high'')"

definition categorize_search_volume :: "real \<Rightarrow> string" where
  "categorize_search_volume volume =
     (if volume < volume_very_low then ''very_low''
      else if volume < volume_low then ''low''
      else if volume < volume_medium then ''medium''
      else if volume < volume_high then ''high''
      else ''very_high'')"

definition calculate_keyword_difficulty :: "real \<Rightarrow> real \<Rightarrow> real" where
  "calculate_keyword_difficulty volume apps =
     (if apps = 0 then 0.0
      else let competition_factor = min (apps / 50000) 1.0;
               volume_factor = min (volume / 1000000) 1.0;
               difficulty = (competition_factor * 0.7 + volume_factor * 0.3) * 100
           in py_round1 difficulty)"

text \<open>
  \<open>_calculate_keyword_difficulty\<close> once more, on the \<open>int\<close> arguments that its
  signature declares. The true division of two \<open>int\<close>s raises \<open>OverflowError\<close> when the
  quotient is too large for a float. The float computation that precedes \<open>round(x, 1)\<close>
  carries a rounding error far below the distance between two values that \<open>int\<close>
  arguments can reach; it matters only when the exact value lies halfway between two
  one-decimal values, where it decides the direction of the rounding. That direction is
  the argument \<open>tie_up\<close>.
\<close>

definition int_truediv :: "int \<Rightarrow> int \<Rightarrow> py_error + real" where
  \<comment> \<open>\<open>a / b\<close> on two \<open>int\<close>s\<close>
  "int_truediv a b =
     (if b = 0 then Inl ZeroDivisionError
      else if float_overflow_bound \<le> \<bar>real_of_int a / real_of_int b\<bar> then Inl OverflowError
      else Inr (real_of_int a / real_of_int b))"

definition round1_with :: "(real \<Rightarrow> bool) \<Rightarrow> real \<Rightarrow> real" where
  \<comment> \<open>\<open>round(x, 1)\<close> of the float computed for the exact value \<open>x\<close>\<close>
  "round1_with tie_up x =
     (let f = \<lfloor>x * 10\<rfloor>; d = x * 10 - of_int f
      in of_int (if d < 1/2 then f else if 1/2 < d then f + 1
                 else if tie_up x then f + 1 else f) / 10)"

definition calculate_keyword_difficulty_int ::
  "(real \<Rightarrow> bool) \<Rightarrow> int \<Rightarrow> int \<Rightarrow> py_error + real" where
  "calculate_keyword_difficulty_int tie_up volume apps =
     (if apps = 0 then Inr 0.0
      else py_bind (int_truediv apps 50000)
        (\<lambda>q. let competition_factor = min q 1.0
             in py_bind (int_truediv volume 1000000)
               (\<lambda>q'. let volume_factor = min q' 1.0;
                         difficulty = (competition_factor * 0.7 + volume_factor * 0.3) * 100
                     in Inr (round1_with tie_up difficulty))))"

definition calculate_potential_score :: "real \<Rightarrow> real \<Rightarrow> real \<Rightarrow> real" where
  "calculate_potential_score volume apps relevance =
     (let volume_score = min ((volume / 100000) * 40) 40;
          competition_score = (if apps > 0 then max (30 - (apps / 500)) 0 else 30);
          relevance_points = relevance * 30;
          total_score = volume_score + competition_score + relevance_points
      in py_round1 (min total_score 100))"

definition generate_recommendation :: "real \<Rightarrow> real \<Rightarrow> real \<Rightarrow> string" where
  "generate_recommendation potential difficulty relevance =
     (if relevance < 0.5 then ''Low relevance - avoid targeting''
      else if potential \<ge> 70 then ''High priority - target immediately''
      else if potential \<ge> 50 then
        (if difficulty < 50 then ''Good opportunity - include in metadata''
         else ''Competitive - use in description, not title'')
      else if potential \<ge> 30 then ''Secondary keyword - use for long-tail variations''
      else ''Low potential - deprioritize'')"

text \<open>
  \<open>str.split()\<close> without arguments: the maximal runs of characters that are not
  whitespace. The whitespace characters are taken from ASCII.
\<close>

definition is_space :: "char \<Rightarrow> bool" where
  "is_space c = (c \<in> set [CHR '' '', CHR 0x09, CHR 0x0A, CHR 0x0B, CHR 0x0C, CHR 0x0D,
     CHR 0x1C, CHR 0x1D, CHR 0x1E, CHR 0x1F])"

fun runs :: "(char \<Rightarrow> bool) \<Rightarrow> string \<Rightarrow> string \<Rightarrow> string list" where
  \<comment> \<open>the maximal runs of characters satisfying \<open>p\<close>; \<open>cur\<close> is the run being read\<close>
  "runs p cur [] = (if cur = [] then [] else [cur])"
| "runs p cur (c # cs) =
     (if p c then runs p (cur @ [c]) cs
      else (if cur = [] then [] else [cur]) @ runs p [] cs)"

definition str_split :: "string \<Rightarrow> string list" where
  "str_split s = runs (\<lambda>c. \<not> is_space c) [] s"

definition analyze_keyword ::
  "KeywordAnalyzer \<Rightarrow> string \<Rightarrow> real \<Rightarrow> real \<Rightarrow> real \<Rightarrow> keyword_analysis \<times> KeywordAnalyzer" where
  "analyze_keyword self kw volume apps relevance =
     (let level = calculate_competition_level apps;
          category = categorize_search_volume volume;
          difficulty = calculate_keyword_difficulty volume apps;
          potential = calculate_potential_score volume apps relevance;
          analysis =
            \<lparr>keyword = kw, search_volume = volume, volume_category = category,
             competing_apps = apps, competition_level = level, relevance_score = relevance,
             difficulty_score = difficulty, potential_score = potential,
             recommendation = generate_recommendation potential difficulty relevance,
             keyword_length = length (str_split kw),
             is_long_tail = (length (str_split kw) \<ge> 3)\<rparr>
      in (analysis, self\<lparr>analyzed_keywords := (analyzed_keywords self)(kw \<mapsto> analysis)\<rparr>))"

section \<open>keyword\_analyzer.py: the intent clusterer\<close>

text \<open>
  \<open>re.findall(r'\w+', s)\<close>: the maximal runs of word characters. The word characters
  are taken from ASCII: letters, digits and the underscore.
\<close>

definition is_word_char :: "char \<Rightarrow> bool" where
  "is_word_char c =
     (c \<in> set ''abcdefghijklmnopqrstuvwxyzABCDEFGHIJKLMNOPQRSTUVWXYZ0123456789_'')"

definition findall_words :: "string \<Rightarrow> string list" where
  "findall_words s = runs is_word_char [] s"

fun intent_loop ::
  "string list \<Rightarrow> (string \<times> string list) list \<Rightarrow> string option \<times> nat \<Rightarrow> string option \<times> nat" where
  \<comment> \<open>the loop over \<open>INTENT_CATEGORIES.items()\<close>, its state being
      \<open>(matched_intent, best_overlap)\<close>; \<open>ws\<close> lists the elements of the set \<open>words\<close>\<close>
  "intent_loop ws [] st = st"
| "intent_loop ws ((intent, intent_words) # rest) (matched_intent, best_overlap) =
     (let overlap = card (set ws \<inter> set intent_words)
      in if overlap > best_overlap then intent_loop ws rest (Some intent, overlap)
         else intent_loop ws rest (matched_intent, best_overlap))"

definition match_intent :: "string \<Rightarrow> string option \<times> nat" where
  \<comment> \<open>the body of the loop over the keywords, up to the end of the inner loop\<close>
  "match_intent kw = intent_loop (findall_words (lower kw)) INTENT_CATEGORIES (None, 0)"

fun cluster_append :: "(string \<times> string list) list \<Rightarrow> string \<Rightarrow> string \<Rightarrow> (string \<times> string list) list" where
  \<comment> \<open>\<open>clusters[intent].append(keyword)\<close>, a new key being added last\<close>
  "cluster_append [] intent kw = [(intent, [kw])]"
| "cluster_append ((i, kws) # rest) intent kw =
     (if i = intent then (i, kws @ [kw]) # rest else (i, kws) # cluster_append rest intent kw)"

fun cluster_loop ::
  "string list \<Rightarrow> (string \<times> string list) list \<times> string list \<Rightarrow>
   (string \<times> string list) list \<times> string list" where
  \<comment> \<open>the loop over the keywords, its state being \<open>(clusters, unclustered)\<close>\<close>
  "cluster_loop [] st = st"
| "cluster_loop (kw # rest) (clusters, unclustered) =
     (case match_intent kw of (matched_intent, best_overlap) \<Rightarrow>
        (case matched_intent of
           Some intent \<Rightarrow>
             if intent \<noteq> [] \<and> best_overlap > 0
             then cluster_loop rest (cluster_append clusters intent kw, unclustered)
             else cluster_loop rest (clusters, unclustered @ [kw])
         | None \<Rightarrow> cluster_loop rest (clusters, unclustered @ [kw])))"

definition bucket_of :: "string \<Rightarrow> string option" where
  \<comment> \<open>the decision of the loop body of \<open>cluster_loop\<close>: the intent whose list receives the
      keyword, or \<open>None\<close> when the keyword goes to \<open>unclustered\<close>\<close>
  "bucket_of kw =
     (case match_intent kw of (matched_intent, best_overlap) \<Rightarrow>
        (case matched_intent of
           Some intent \<Rightarrow> if intent \<noteq> [] \<and> best_overlap > 0 then Some intent else None
         | None \<Rightarrow> None))"

text \<open>A template is the text before and the text after its one \<open>{obj}\<close>.\<close>

type_synonym template = "string \<times> string"

definition format_template :: "template \<Rightarrow> string \<Rightarrow> string" where
  \<comment> \<open>\<open>template.format(obj=obj)\<close>\<close>
  "format_template t obj = fst t @ obj @ snd t"

definition templates :: "(string \<times> template list) list" where
  "templates =
    [(''track'', [(''apps to help me track '', ''''), (''best '', '' tracking app''),
        (''how to track my '', '' on my phone'')]),
     (''manage'', [(''apps to help me manage '', ''''), (''best '', '' management app''),
        (''how to organize my '', '''')]),
     (''plan'', [(''apps to help me plan '', ''''), (''best '', '' planner app''),
        (''how to schedule my '', '''')]),
     (''create'', [(''apps to create '', ''''), (''best '', '' creator app''),
        (''easy way to make '', '''')]),
     (''learn'', [(''apps to learn '', ''''), (''best '', '' learning app''),
        (''how to study '', '' on my phone'')]),
     (''find'', [(''apps to find '', ''''), (''best app for finding '', ''''),
        (''where to find '', '''')]),
     (''compare'', [(''apps to compare '', ''''), (''best '', '' comparison app''),
        (''how to compare '', '''')]),
     (''share'', [(''apps to share '', ''''), (''best '', '' sharing app''),
        (''how to collaborate on '', '''')]),
     (''save'', [(''apps to save '', ''''), (''best '', '' budgeting app''),
        (''how to manage my '', '''')]),
     (''health'', [(''apps for '', ''''), (''best '', '' app''),
        (''how to improve my '', '''')]),
     (''communicate'', [(''apps for '', ''''), (''best '', '' app''),
        (''how to '', '' for free'')]),
     (''automate'', [(''apps to automate '', ''''), (''best smart '', '' app''),
        (''how to automate '', '''')])]"

definition fallback_templates :: "template list" where
  \<comment> \<open>the default of \<open>templates.get(intent, ...)\<close>\<close>
  "fallback_templates = [(''apps for '', ''''), (''best '', '' app'')]"

definition join_words :: "string list \<Rightarrow> string" where
  \<comment> \<open>\<open>' '.join(ws)\<close>\<close>
  "join_words ws = (case ws of [] \<Rightarrow> [] | w # rest \<Rightarrow> w @ concat (map (\<lambda>x. CHR '' '' # x) rest))"

fun objects_loop :: "string set \<Rightarrow> string list \<Rightarrow> string list \<Rightarrow> string list" where
  \<comment> \<open>the loop filling the set \<open>objects\<close>, kept as the list of its elements in the order
      of their first insertion\<close>
  "objects_loop intent_words [] objects = objects"
| "objects_loop intent_words (kw # rest) objects =
     (let ws = findall_words (lower kw);
          obj_words = filter (\<lambda>w. w \<notin> intent_words \<and> length w > 2) ws
      in if obj_words \<noteq> []
         then objects_loop intent_words rest
                (if join_words obj_words \<in> set objects then objects
                 else objects @ [join_words obj_words])
         else objects_loop intent_words rest objects)"

definition slice_to :: "'a list \<Rightarrow> int \<Rightarrow> 'a list" where
  \<comment> \<open>\<open>xs[:n]\<close>; a negative \<open>n\<close> counts from the end\<close>
  "slice_to xs n = (if 0 \<le> n then take (nat n) xs else take (length xs - nat (- n)) xs)"

fun template_loop :: "string \<Rightarrow> template list \<Rightarrow> int \<Rightarrow> string list \<Rightarrow> string list \<times> bool" where
  \<comment> \<open>the loop over the templates for one object; the flag says that the function returned
      from inside the loop\<close>
  "template_loop obj [] max_queries queries = (queries, False)"
| "template_loop obj (t # ts) max_queries queries =
     (let query = format_template t obj
      in if query \<notin> set queries
         then (if int (length (queries @ [query])) \<ge> max_queries then (queries @ [query], True)
               else template_loop obj ts max_queries (queries @ [query]))
         else template_loop obj ts max_queries queries)"

fun query_loop :: "string list \<Rightarrow> template list \<Rightarrow> int \<Rightarrow> string list \<Rightarrow> string list" where
  \<comment> \<open>the loop over the objects\<close>
  "query_loop [] ts max_queries queries = queries"
| "query_loop (obj # objs) ts max_queries queries =
     (case template_loop obj ts max_queries queries of
        (queries', True) \<Rightarrow> queries'
      | (queries', False) \<Rightarrow> query_loop objs ts max_queries queries')"

text \<open>
  The iteration order of a Python set of strings is not fixed by its contents.
  \<open>generate_natural_queries\<close> therefore takes that order as its first argument: a
  function from the elements of \<open>objects\<close> (in insertion order) to the list that
  \<open>list(objects)\<close> yields.
\<close>

definition generate_natural_queries ::
  "(string list \<Rightarrow> string list) \<Rightarrow> string \<Rightarrow> string list \<Rightarrow> int \<Rightarrow> string list" where
  "generate_natural_queries set_order intent kws max_queries =
     (let intent_templates = dict_get (map_of templates intent) fallback_templates;
          intent_words = set (dict_get (map_of INTENT_CATEGORIES intent) []);
          objects = objects_loop intent_words kws []
      in query_loop (slice_to (set_order objects) max_queries) intent_templates max_queries [])"

record keyword_data =
  data_search_volume :: "real option"
  data_competing_apps :: "real option"
  data_relevance_score :: "real option"

definition empty_data :: keyword_data where
  \<comment> \<open>the default \<open>{}\<close> of \<open>keyword_data.get(keyword, {})\<close>\<close>
  "empty_data = \<lparr>data_search_volume = None, data_competing_apps = None,
     data_relevance_score = None\<rparr>"

fun score_loop ::
  "string list \<Rightarrow> (string \<rightharpoonup> keyword_data) \<Rightarrow> real \<times> real \<times> real \<times> nat \<Rightarrow>
   py_error + (real \<times> real \<times> real \<times> nat)" where
  \<comment> \<open>the loop of \<open>score_cluster\<close>, its state being
      \<open>(total_volume, total_relevance, total_opportunity, count)\<close>\<close>
  "score_loop [] kd st = Inr st"
| "score_loop (kw # rest) kd (total_volume, total_relevance, total_opportunity, count) =
     (let data = dict_get (kd kw) empty_data;
          volume = dict_get (data_search_volume data) 0;
          competition = dict_get (data_competing_apps data) 5000;
          relevance = dict_get (data_relevance_score data) 0.5
      in py_bind
           (if competition > 0
            then py_bind (py_truediv volume competition) (\<lambda>q. Inr (q * relevance))
            else Inr (volume * relevance))
           (\<lambda>opportunity.
              score_loop rest kd (total_volume + volume, total_relevance + relevance,
                total_opportunity + opportunity, count + 1)))"

definition score_cluster ::
  "string list \<Rightarrow> (string \<times> keyword_data) list option \<Rightarrow> py_error + real" where
  \<comment> \<open>\<open>keyword_data\<close> is \<open>None\<close> or the dictionary as the list of its items\<close>
  "score_cluster kws kw_data =
     (if kws = [] then Inr 0.0
      else if (case kw_data of None \<Rightarrow> True | Some d \<Rightarrow> d = [])
      then Inr (min (real (length kws) * 10.0) 50.0)
      else py_bind (score_loop kws (map_of (the kw_data)) (0, 0.0, 0.0, 0))
        (\<lambda>(total_volume, total_relevance, total_opportunity, count).
           if count = 0 then Inr 0.0
           else py_bind (py_truediv total_relevance (real count))
             (\<lambda>mean_relevance.
                let volume_score = min (total_volume / 10000) 30.0;
                    relevance_score = mean_relevance * 30.0;
                    opportunity_score = min (total_opportunity * 10) 30.0;
                    diversity_score = min (real count * 2.0) 10.0
                in Inr (py_round1 (volume_score + relevance_score + opportunity_score
                                   + diversity_score)))))"

record cluster =
  name :: string
  intent :: string
  member_keywords :: "string list"  \<comment> \<open>the key \<open>keywords\<close>\<close>
  keyword_count :: nat
  natural_queries :: "string list"
  combined_score :: real

text \<open>\<open>str.title()\<close> on ASCII: a letter is upper-cased after a character that is no letter.\<close>

definition upper_char :: "char \<Rightarrow> char" where
  "upper_char c =
     (case map_of (zip ''abcdefghijklmnopqrstuvwxyz'' ''ABCDEFGHIJKLMNOPQRSTUVWXYZ'') c of
        Some u \<Rightarrow> u | None \<Rightarrow> c)"

definition is_alpha :: "char \<Rightarrow> bool" where
  "is_alpha c = (c \<in> set ''abcdefghijklmnopqrstuvwxyzABCDEFGHIJKLMNOPQRSTUVWXYZ'')"

fun title_from :: "bool \<Rightarrow> string \<Rightarrow> string" where
  "title_from after_letter [] = []"
| "title_from after_letter (c # cs) =
     (if is_alpha c
      then (if after_letter then lower_char c else upper_char c) # title_from True cs
      else c # title_from False cs)"

definition title :: "string \<Rightarrow> string" where
  "title s = title_from False s"

fun build_clusters ::
  "(string list \<Rightarrow> string list) \<Rightarrow> (string \<times> string list) list \<Rightarrow>
   (string \<times> keyword_data) list option \<Rightarrow> py_error + cluster list" where
  \<comment> \<open>the loop over \<open>clusters.items()\<close>\<close>
  "build_clusters set_order [] kw_data = Inr []"
| "build_clusters set_order ((intent_name, cluster_keywords) # rest) kw_data =
     py_bind (score_cluster cluster_keywords kw_data)
       (\<lambda>s. py_bind (build_clusters set_order rest kw_data)
          (\<lambda>result. Inr (\<lparr>name = title intent_name @ '' Intent'', intent = intent_name,
                 member_keywords = cluster_keywords, keyword_count = length cluster_keywords,
                 natural_queries =
                   generate_natural_queries set_order intent_name cluster_keywords 5,
                 combined_score = s\<rparr> # result)))"

definition cluster_by_intent ::
  "(string list \<Rightarrow> string list) \<Rightarrow> string list \<Rightarrow> (string \<times> keyword_data) list option \<Rightarrow>
   py_error + cluster list" where
  "cluster_by_intent set_order kws kw_data =
     (case cluster_loop kws ([], []) of (clusters, unclustered) \<Rightarrow>
        py_bind (build_clusters set_order clusters kw_data)
          (\<lambda>result.
             py_bind
               (if unclustered \<noteq> []
                then py_bind (score_cluster unclustered kw_data)
                  (\<lambda>s. Inr (result @ [\<lparr>name = ''General'', intent = ''general'',
                          member_keywords = unclustered, keyword_count = length unclustered,
                          natural_queries = [], combined_score = s\<rparr>]))
                else Inr result)
               (\<lambda>result. Inr (sort_key (\<lambda>c. - combined_score c) result))))"

section \<open>metadata\_optimizer.py: the constructor\<close>




section \<open>Rounding to one decimal\<close>

lemma round_half_even_mono: "x \<le> y \<Longrightarrow> round_half_even x \<le> round_half_even y"
proof -
  assume xy: "x \<le> y"
  have fl: "\<lfloor>x\<rfloor> \<le> \<lfloor>y\<rfloor>" using xy by (rule floor_mono)
  show ?thesis
  proof (cases "\<lfloor>x\<rfloor> = \<lfloor>y\<rfloor>")
    case True
    then show ?thesis using xy by (auto simp: round_half_even_def Let_def)
  next
    case False
    then have "\<lfloor>x\<rfloor> + 1 \<le> \<lfloor>y\<rfloor>" using fl by simp
    moreover have "round_half_even x \<le> \<lfloor>x\<rfloor> + 1" by (simp add: round_half_even_def Let_def)
    moreover have "\<lfloor>y\<rfloor> \<le> round_half_even y" by (simp add: round_half_even_def Let_def)
    ultimately show ?thesis by linarith
  qed
qed

lemma round_half_even_of_int: "round_half_even (of_int k) = k"
  by (simp add: round_half_even_def Let_def)

lemma py_round1_mono: "x \<le> y \<Longrightarrow> py_round1 x \<le> py_round1 y"
  using round_half_even_mono [of "x * 10" "y * 10"] by (simp add: py_round1_def divide_right_mono)

lemma py_round1_one_decimal: "one_decimal (py_round1 x)"
  by (simp add: py_round1_def one_decimal_def)

lemma py_round1_fixed: "one_decimal x \<Longrightarrow> py_round1 x = x"
proof -
  assume "one_decimal x"
  then have e: "x * 10 = of_int \<lfloor>x * 10\<rfloor>" unfolding one_decimal_def by (rule sym)
  have "round_half_even (x * 10) = \<lfloor>x * 10\<rfloor>"
    using round_half_even_of_int [of "\<lfloor>x * 10\<rfloor>"] e by simp
  then show ?thesis using e by (simp add: py_round1_def)
qed

lemma py_round1_lower: "one_decimal a \<Longrightarrow> a \<le> x \<Longrightarrow> a \<le> py_round1 x"
  using py_round1_mono [of a x] py_round1_fixed [of a] by simp

lemma py_round1_upper: "one_decimal b \<Longrightarrow> x \<le> b \<Longrightarrow> py_round1 x \<le> b"
  using py_round1_mono [of x b] py_round1_fixed [of b] by simp

lemma one_decimal_0: "one_decimal 0" by (simp add: one_decimal_def)
lemma one_decimal_100: "one_decimal 100" by (simp add: one_decimal_def)
lemma one_decimal_50: "one_decimal 50" by (simp add: one_decimal_def)

section \<open>The range of a float and the rounding of a computed float\<close>

lemma py_bind_Inr [simp]: "py_bind (Inr x) f = f x"
  by (simp add: py_bind_def)

lemma py_bind_Inl [simp]: "py_bind (Inl e) f = Inl e"
  by (simp add: py_bind_def)

lemma round1_with_one_decimal: "one_decimal (round1_with t x)"
  by (simp add: round1_with_def one_decimal_def Let_def)

lemma round1_with_near: "\<bar>round1_with t x - x\<bar> \<le> 1 / 20"
proof -
  let ?f = "\<lfloor>x * 10\<rfloor>"
  have a: "of_int ?f \<le> x * 10" "x * 10 < of_int ?f + 1" by linarith+
  show ?thesis
    using a by (auto simp: round1_with_def Let_def abs_le_iff field_simps)
qed

lemma round1_with_no_tie:
  "x * 10 - of_int \<lfloor>x * 10\<rfloor> \<noteq> 1 / 2 \<Longrightarrow> round1_with t x = py_round1 x"
  by (simp add: round1_with_def py_round1_def round_half_even_def Let_def)

lemma round1_with_fixed: "one_decimal x \<Longrightarrow> round1_with t x = x"
proof -
  assume "one_decimal x"
  then have e: "x * 10 = of_int \<lfloor>x * 10\<rfloor>" unfolding one_decimal_def by (rule sym)
  then have "x * 10 - of_int \<lfloor>x * 10\<rfloor> \<noteq> 1 / 2" by simp
  then show ?thesis using py_round1_fixed [OF \<open>one_decimal x\<close>] by (simp add: round1_with_no_tie)
qed

lemma round1_with_mono: "x \<le> y \<Longrightarrow> round1_with t x \<le> round1_with t y"
proof -
  assume xy: "x \<le> y"
  have fl: "\<lfloor>x * 10\<rfloor> \<le> \<lfloor>y * 10\<rfloor>" using xy by (intro floor_mono) simp
  show ?thesis
  proof (cases "x = y")
    case True
    then show ?thesis by simp
  next
    case ne: False
    show ?thesis
    proof (cases "\<lfloor>x * 10\<rfloor> = \<lfloor>y * 10\<rfloor>")
      case True
      have "x * 10 - of_int \<lfloor>x * 10\<rfloor> < y * 10 - of_int \<lfloor>y * 10\<rfloor>"
        using xy ne True by simp
      then show ?thesis using True by (auto simp: round1_with_def Let_def divide_right_mono)
    next
      case False
      then have "\<lfloor>x * 10\<rfloor> + 1 \<le> \<lfloor>y * 10\<rfloor>" using fl by simp
      then have "real_of_int \<lfloor>x * 10\<rfloor> + 1 \<le> real_of_int \<lfloor>y * 10\<rfloor>" by linarith
      moreover have "round1_with t x \<le> (real_of_int \<lfloor>x * 10\<rfloor> + 1) / 10"
        by (simp add: round1_with_def Let_def divide_right_mono)
      moreover have "real_of_int \<lfloor>y * 10\<rfloor> / 10 \<le> round1_with t y"
        by (simp add: round1_with_def Let_def divide_right_mono)
      ultimately show ?thesis by (smt (verit) divide_right_mono)
    qed
  qed
qed

lemma round1_with_lower: "one_decimal a \<Longrightarrow> a \<le> x \<Longrightarrow> a \<le> round1_with t x"
  using round1_with_mono [of a x t] round1_with_fixed [of a t] by simp

lemma round1_with_upper: "one_decimal b \<Longrightarrow> x \<le> b \<Longrightarrow> round1_with t x \<le> b"
  using round1_with_mono [of x b t] round1_with_fixed [of b t] by simp

lemma float_overflow_bound_large: "1000000000000 < float_overflow_bound"
  by (simp add: float_overflow_bound_def)

lemma int_truediv_in_range:
  assumes "in_float_range (real_of_int a)" and "1 \<le> b"
  shows "int_truediv a b = Inr (real_of_int a / real_of_int b)"
proof -
  have b1: "1 \<le> real_of_int b" using assms(2) by simp
  have "\<bar>real_of_int a\<bar> * 1 \<le> \<bar>real_of_int a\<bar> * real_of_int b"
    by (rule mult_left_mono [OF b1]) simp
  then have "\<bar>real_of_int a\<bar> / real_of_int b \<le> \<bar>real_of_int a\<bar>"
    using b1 by (simp add: field_simps)
  then have "\<bar>real_of_int a / real_of_int b\<bar> \<le> \<bar>real_of_int a\<bar>"
    using b1 by simp
  then have "\<bar>real_of_int a / real_of_int b\<bar> < float_overflow_bound"
    using assms(1) by (simp add: in_float_range_def)
  then show ?thesis using assms(2) by (simp add: int_truediv_def)
qed

lemma in_float_range_small: "\<bar>x\<bar> \<le> 1000000000000 \<Longrightarrow> in_float_range x"
  using float_overflow_bound_large by (simp add: in_float_range_def)

section \<open>The overall score\<close>

lemma one_decimal_metadata: "one_decimal (score_metadata_quality m)"
  unfolding score_metadata_quality_def Let_def by (rule py_round1_one_decimal)
lemma one_decimal_ratings: "one_decimal (score_ratings_reviews m)"
  unfolding score_ratings_reviews_def Let_def by (rule py_round1_one_decimal)
lemma one_decimal_keyword: "one_decimal (score_keyword_performance m)"
  unfolding score_keyword_performance_def Let_def by (rule py_round1_one_decimal)
lemma one_decimal_conversion: "one_decimal (score_conversion_metrics m)"
  unfolding score_conversion_metrics_def Let_def by (rule py_round1_one_decimal)
lemma one_decimal_score_technical: "one_decimal (score_technical_performance a b c)"
  unfolding score_technical_performance_def Let_def by (rule py_round1_one_decimal)

lemma one_decimal_score_visual: "one_decimal (score_visual_optimization a b c)"
  unfolding score_visual_optimization_def Let_def by (rule py_round1_one_decimal)

lemma one_decimal_technical: "one_decimal (technical_score_of m)"
  by (cases m) (simp_all add: technical_score_of_def one_decimal_score_technical one_decimal_50)
lemma one_decimal_visual: "one_decimal (visual_score_of m)"
  by (cases m) (simp_all add: visual_score_of_def one_decimal_score_visual one_decimal_50)

lemma weights_cases: "resolve_weights p = WEIGHTS \<or> resolve_weights p = GOOGLE_WEIGHTS \<or> resolve_weights p = APPLE_WEIGHTS"
  by (simp add: resolve_weights_def)

lemma weighted_lower:
  fixes lo :: real
  assumes w: "w = WEIGHTS \<or> w = GOOGLE_WEIGHTS \<or> w = APPLE_WEIGHTS"
    and lo: "lo \<le> a" "lo \<le> b" "lo \<le> c" "lo \<le> d" "lo \<le> e" "lo \<le> f"
  shows "lo \<le> a * (real_of_int (metadata_quality w) / 100) +
            b * (real_of_int (ratings_reviews w) / 100) +
            c * (real_of_int (keyword_performance w) / 100) +
            d * (real_of_int (conversion_metrics w) / 100) +
            e * (real_of_int (technical_performance w) / 100) +
            f * (real_of_int (visual_optimization w) / 100)"
proof -
  consider "w = WEIGHTS" | "w = GOOGLE_WEIGHTS" | "w = APPLE_WEIGHTS" using w by blast
  then show ?thesis
  proof cases
    case 1 then show ?thesis using lo by (simp add: WEIGHTS_def)
  next
    case 2 then show ?thesis using lo by (simp add: GOOGLE_WEIGHTS_def)
  next
    case 3 then show ?thesis using lo by (simp add: APPLE_WEIGHTS_def)
  qed
qed

lemma weighted_upper:
  fixes hi :: real
  assumes w: "w = WEIGHTS \<or> w = GOOGLE_WEIGHTS \<or> w = APPLE_WEIGHTS"
    and hi: "a \<le> hi" "b \<le> hi" "c \<le> hi" "d \<le> hi" "e \<le> hi" "f \<le> hi"
  shows "a * (real_of_int (metadata_quality w) / 100) +
            b * (real_of_int (ratings_reviews w) / 100) +
            c * (real_of_int (keyword_performance w) / 100) +
            d * (real_of_int (conversion_metrics w) / 100) +
            e * (real_of_int (technical_performance w) / 100) +
            f * (real_of_int (visual_optimization w) / 100) \<le> hi"
proof -
  consider "w = WEIGHTS" | "w = GOOGLE_WEIGHTS" | "w = APPLE_WEIGHTS" using w by blast
  then show ?thesis
  proof cases
    case 1 then show ?thesis using hi by (simp add: WEIGHTS_def)
  next
    case 2 then show ?thesis using hi by (simp add: GOOGLE_WEIGHTS_def)
  next
    case 3 then show ?thesis using hi by (simp add: APPLE_WEIGHTS_def)
  qed
qed

lemma one_decimal_Min: "xs \<noteq> [] \<Longrightarrow> \<forall>x\<in>set xs. one_decimal x \<Longrightarrow> one_decimal (Min (set xs))"
  using Min_in [of "set xs"] by auto

lemma one_decimal_Max: "xs \<noteq> [] \<Longrightarrow> \<forall>x\<in>set xs. one_decimal x \<Longrightarrow> one_decimal (Max (set xs))"
  using Max_in [of "set xs"] by auto

text \<open>
  Claim C1. For every platform selection and every six metric bundles, the overall score of
  the report lies between the smallest and the largest of the six sub-scores: it is the
  weighted sum of the sub-scores, rounded to one decimal, and the weights of the profile in
  use sum to 100.
\<close>

theorem overall_score_within_sub_scores:
  "let report = fst (calculate_overall_score (ASOScorer_init p) metadata ratings kp conversion
                       technical_data visual_data);
       subs = sub_scores (report_breakdown report)
   in subs = [score_metadata_quality metadata, score_ratings_reviews ratings,
              score_keyword_performance kp, score_conversion_metrics conversion,
              technical_score_of technical_data, visual_score_of visual_data]
      \<and> Min (set subs) \<le> overall_score report \<and> overall_score report \<le> Max (set subs)
      \<and> sum_values (weights_used report) = 100"
proof -
  define subs where "subs = [score_metadata_quality metadata, score_ratings_reviews ratings,
              score_keyword_performance kp, score_conversion_metrics conversion,
              technical_score_of technical_data, visual_score_of visual_data]"
  define w where "w = resolve_weights (platform (ASOScorer_init p))"
  have wc: "w = WEIGHTS \<or> w = GOOGLE_WEIGHTS \<or> w = APPLE_WEIGHTS"
    unfolding w_def by (rule weights_cases)
  have od: "\<forall>x\<in>set subs. one_decimal x"
    by (simp add: subs_def one_decimal_metadata one_decimal_ratings one_decimal_keyword
        one_decimal_conversion one_decimal_technical one_decimal_visual)
  have ne: "subs \<noteq> []" by (simp add: subs_def)
  have mem: "score_metadata_quality metadata \<in> set subs" "score_ratings_reviews ratings \<in> set subs"
    "score_keyword_performance kp \<in> set subs" "score_conversion_metrics conversion \<in> set subs"
    "technical_score_of technical_data \<in> set subs" "visual_score_of visual_data \<in> set subs"
    by (simp_all add: subs_def)
  let ?s = "score_metadata_quality metadata * (real_of_int (metadata_quality w) / 100) +
            score_ratings_reviews ratings * (real_of_int (ratings_reviews w) / 100) +
            score_keyword_performance kp * (real_of_int (keyword_performance w) / 100) +
            score_conversion_metrics conversion * (real_of_int (conversion_metrics w) / 100) +
            technical_score_of technical_data * (real_of_int (technical_performance w) / 100) +
            visual_score_of visual_data * (real_of_int (visual_optimization w) / 100)"
  have l: "Min (set subs) \<le> ?s"
    by (rule weighted_lower [OF wc]) (rule Min_le [OF finite_set mem(1)] Min_le [OF finite_set mem(2)]
        Min_le [OF finite_set mem(3)] Min_le [OF finite_set mem(4)] Min_le [OF finite_set mem(5)]
        Min_le [OF finite_set mem(6)])+
  have h: "?s \<le> Max (set subs)"
    by (rule weighted_upper [OF wc]) (rule Max_ge [OF finite_set mem(1)] Max_ge [OF finite_set mem(2)]
        Max_ge [OF finite_set mem(3)] Max_ge [OF finite_set mem(4)] Max_ge [OF finite_set mem(5)]
        Max_ge [OF finite_set mem(6)])+
  have l': "Min (set subs) \<le> py_round1 ?s"
    by (rule py_round1_lower [OF one_decimal_Min [OF ne od] l])
  have h': "py_round1 ?s \<le> Max (set subs)"
    by (rule py_round1_upper [OF one_decimal_Max [OF ne od] h])
  have sw: "sum_values w = 100"
    using wc by (auto simp: sum_values_def WEIGHTS_def GOOGLE_WEIGHTS_def APPLE_WEIGHTS_def)
  have aw: "active_weights (ASOScorer_init p) = w"
    by (simp add: w_def ASOScorer_init_def Let_def)
  define report where "report = fst (calculate_overall_score (ASOScorer_init p) metadata
     ratings kp conversion technical_data visual_data)"
  have r1: "sub_scores (report_breakdown report) = subs"
    by (simp add: report_def subs_def calculate_overall_score_def Let_def sub_scores_def
        breakdown_of_def)
  have r2: "overall_score report = py_round1 ?s"
    by (simp add: report_def calculate_overall_score_def Let_def aw)
  have r3: "weights_used report = w"
    by (simp add: report_def calculate_overall_score_def Let_def aw)
  have "sub_scores (report_breakdown report) = subs
      \<and> Min (set (sub_scores (report_breakdown report))) \<le> overall_score report
      \<and> overall_score report \<le> Max (set (sub_scores (report_breakdown report)))
      \<and> sum_values (weights_used report) = 100"
    unfolding r1 r2 r3 using l' h' sw by blast
  then show ?thesis
    unfolding Let_def report_def subs_def .
qed

section \<open>Ranges of the dimension scorers\<close>

lemma py_round1_int: "py_round1 (of_int k) = of_int k"
  by (rule py_round1_fixed) (simp add: one_decimal_def)

lemma metadata_range:
  assumes "0 \<le> dict_get (description_quality m) 0" "0 \<le> dict_get (keyword_density m) 0"
  shows "0 \<le> score_metadata_quality m \<and> score_metadata_quality m \<le> 100"
proof -
  let ?q = "dict_get (description_quality m) 0"
  have q: "0 \<le> ?q * 10" using assms(1) by simp
  show ?thesis
    unfolding score_metadata_quality_def Let_def
    apply (intro conjI py_round1_lower py_round1_upper one_decimal_0 one_decimal_100)
    using assms q by (auto simp: min_def max_def)
qed

lemma rating_quality_bounds: "10 \<le> rating_quality_score a \<and> rating_quality_score a \<le> 50"
  by (simp add: rating_quality_score_def)

lemma rating_velocity_bounds: "5 \<le> rating_velocity_score a \<and> rating_velocity_score a \<le> 20"
  by (simp add: rating_velocity_score_def)

lemma rating_volume_nonneg: "0 \<le> t \<Longrightarrow> 0 \<le> rating_volume_score t"
  by (simp add: rating_volume_score_def)

lemma ratings_range:
  assumes "0 \<le> dict_get (total_ratings r) 0"
  shows "0 \<le> score_ratings_reviews r \<and> score_ratings_reviews r \<le> 100"
proof -
  have "0 \<le> rating_quality_score (dict_get (average_rating r) 0)
           + rating_volume_score (dict_get (total_ratings r) 0)
           + rating_velocity_score (dict_get (recent_ratings_30d r) 0)"
    using rating_quality_bounds [of "dict_get (average_rating r) 0"]
      rating_velocity_bounds [of "dict_get (recent_ratings_30d r) 0"]
      rating_volume_nonneg [OF assms] by linarith
  then show ?thesis
    unfolding score_ratings_reviews_def Let_def
    by (intro conjI py_round1_lower py_round1_upper one_decimal_0 one_decimal_100) simp_all
qed

lemma keyword_range:
  assumes "0 \<le> dict_get (top_10 k) 0" "0 \<le> dict_get (top_50 k) 0" "0 \<le> dict_get (top_100 k) 0"
  shows "0 \<le> score_keyword_performance k \<and> score_keyword_performance k \<le> 100"
  unfolding score_keyword_performance_def Let_def
  apply (intro conjI py_round1_lower py_round1_upper one_decimal_0 one_decimal_100)
  using assms by (auto simp: min_def)

lemma conversion_range:
  assumes "0 \<le> dict_get (impression_to_install c) 0"
  shows "0 \<le> score_conversion_metrics c \<and> score_conversion_metrics c \<le> 100"
  unfolding score_conversion_metrics_def Let_def
  apply (intro conjI py_round1_lower py_round1_upper one_decimal_0 one_decimal_100)
  using assms by (auto simp: min_def)

lemma technical_range:
  "0 \<le> score_technical_performance a b c \<and> score_technical_performance a b c \<le> 100"
  unfolding score_technical_performance_def Let_def
  apply (intro conjI py_round1_lower py_round1_upper one_decimal_0 one_decimal_100)
  by (auto simp: min_def max_def)

lemma visual_range:
  "0 \<le> score_visual_optimization a b c \<and> score_visual_optimization a b c \<le> 100"
  unfolding score_visual_optimization_def Let_def
  apply (intro conjI py_round1_lower py_round1_upper one_decimal_0 one_decimal_100)
  by auto

text \<open>
  Claim C2 (as amended). When every number that the scorers read is within the range of a
  float and the metrics \<open>description_quality\<close>, \<open>keyword_density\<close>, \<open>total_ratings\<close>,
  \<open>top_10\<close>, \<open>top_50\<close>, \<open>top_100\<close> and \<open>impression_to_install\<close> are non-negative (an
  absent key counts as its default 0), each of the six dimension scorers returns a value
  between 0 and 100 with at most one decimal.
\<close>

theorem scorers_within_0_100:
  assumes "metadata_in_range m" and "ratings_in_range r" and "keyword_in_range k"
    and "conversion_in_range c"
    and "in_float_range crash" and "in_float_range anr" and "in_float_range battery"
    and "in_float_range cpp"
    and "0 \<le> dict_get (description_quality m) 0" and "0 \<le> dict_get (keyword_density m) 0"
    and "0 \<le> dict_get (total_ratings r) 0"
    and "0 \<le> dict_get (top_10 k) 0" and "0 \<le> dict_get (top_50 k) 0"
    and "0 \<le> dict_get (top_100 k) 0"
    and "0 \<le> dict_get (impression_to_install c) 0"
  shows "\<forall>s \<in> set [score_metadata_quality m, score_ratings_reviews r,
                   score_keyword_performance k, score_conversion_metrics c,
                   score_technical_performance crash anr battery,
                   score_visual_optimization captions cpp video].
           0 \<le> s \<and> s \<le> 100 \<and> one_decimal s"
  using metadata_range [OF assms(9,10)] ratings_range [OF assms(11)]
    keyword_range [OF assms(12,13,14)] conversion_range [OF assms(15)]
    technical_range [of crash anr battery] visual_range [of captions cpp video]
  by (simp add: one_decimal_metadata one_decimal_ratings one_decimal_keyword
      one_decimal_conversion one_decimal_score_technical one_decimal_score_visual)

text \<open>The bounds at concrete bundles of non-negative metrics.\<close>

theorem scorers_within_0_100_witness:
  "0 \<le> score_metadata_quality \<lparr>title_keyword_count = Some 2, title_length = Some 28,
       description_length = Some 1800, description_quality = Some 0.8,
       keyword_density = Some 3\<rparr>
   \<and> score_ratings_reviews \<lparr>average_rating = Some 4.2, total_ratings = Some 2500,
       recent_ratings_30d = Some 60\<rparr> \<le> 100
   \<and> 0 \<le> score_keyword_performance \<lparr>top_10 = Some 3, top_50 = None, top_100 = Some 40,
       improving_keywords = Some 2\<rparr>
   \<and> score_conversion_metrics \<lparr>impression_to_install = Some 0.05,
       downloads_last_30_days = Some 5000, downloads_trend = Some ''up''\<rparr> \<le> 100
   \<and> one_decimal (score_technical_performance 3 2 15)
   \<and> score_visual_optimization True 0 False \<le> 100"
proof -
  have m: "metadata_in_range \<lparr>title_keyword_count = Some 2, title_length = Some 28,
       description_length = Some 1800, description_quality = Some 0.8,
       keyword_density = Some 3\<rparr>"
    by (simp add: metadata_in_range_def dict_get_def in_float_range_small)
  have r: "ratings_in_range \<lparr>average_rating = Some 4.2, total_ratings = Some 2500,
       recent_ratings_30d = Some 60\<rparr>"
    by (simp add: ratings_in_range_def dict_get_def in_float_range_small)
  have k: "keyword_in_range \<lparr>top_10 = Some 3, top_50 = None, top_100 = Some 40,
       improving_keywords = Some 2\<rparr>"
    by (simp add: keyword_in_range_def dict_get_def in_float_range_small)
  have c: "conversion_in_range \<lparr>impression_to_install = Some 0.05,
       downloads_last_30_days = Some 5000, downloads_trend = Some ''up''\<rparr>"
    by (simp add: conversion_in_range_def dict_get_def in_float_range_small)
  have t: "in_float_range 3" "in_float_range 2" "in_float_range 15" "in_float_range 0"
    by (simp_all add: in_float_range_small)
  show ?thesis
    using scorers_within_0_100 [OF m r k c t, of True False]
    by (simp add: dict_get_def)
qed

text \<open>
  Claim C2 as stated fails: a negative \<open>description_quality\<close> or a negative
  \<open>total_ratings\<close> gives a negative score, since neither scorer has a floor at 0.
\<close>

theorem scorers_negative_counterexample:
  "score_metadata_quality \<lparr>title_keyword_count = None, title_length = None,
       description_length = None, description_quality = Some (- 100),
       keyword_density = None\<rparr> = - 990
   \<and> score_ratings_reviews \<lparr>average_rating = None, total_ratings = Some (- 1000),
       recent_ratings_30d = None\<rparr> = - 135"
proof -
  have "py_round1 (- 990) = - 990" using py_round1_int [of "- 990"] by simp
  moreover have "py_round1 (- 135) = - 135" using py_round1_int [of "- 135"] by simp
  ultimately show ?thesis
    by (simp add: score_metadata_quality_def score_ratings_reviews_def rating_quality_score_def
      rating_volume_score_def rating_velocity_score_def dict_get_def Let_def)
qed

section \<open>Monotonicity of the ratings scorer\<close>

lemma rating_quality_score_mono: "a \<le> b \<Longrightarrow> rating_quality_score a \<le> rating_quality_score b"
  by (simp add: rating_quality_score_def)

text \<open>
  Claim C7. \<open>score_ratings_reviews\<close> is monotonically non-decreasing in
  \<open>average_rating\<close>: for every ratings bundle and all values \<open>r1 \<le> r2\<close> of
  \<open>average_rating\<close>, the other fields fixed, the score at \<open>r2\<close> is at least the score
  at \<open>r1\<close>.
\<close>

theorem score_ratings_reviews_mono:
  assumes "r1 \<le> r2"
  shows "score_ratings_reviews (ratings\<lparr>average_rating := Some r1\<rparr>)
         \<le> score_ratings_reviews (ratings\<lparr>average_rating := Some r2\<rparr>)"
proof -
  have "rating_quality_score r1 \<le> rating_quality_score r2"
    using assms by (rule rating_quality_score_mono)
  then show ?thesis
    unfolding score_ratings_reviews_def Let_def
    by (intro py_round1_mono) (simp add: dict_get_def)
qed

text \<open>Monotonicity between a rating in the flat tier and one in the interpolated band.\<close>

theorem score_ratings_reviews_mono_witness:
  "(3.2::real) \<le> 4
   \<and> score_ratings_reviews \<lparr>average_rating = Some 3.2, total_ratings = Some 2500,
         recent_ratings_30d = Some 60\<rparr>
     \<le> score_ratings_reviews \<lparr>average_rating = Some 4, total_ratings = Some 2500,
         recent_ratings_30d = Some 60\<rparr>"
  using score_ratings_reviews_mono [of "3.2" 4
      "\<lparr>average_rating = None, total_ratings = Some 2500, recent_ratings_30d = Some 60\<rparr>"]
  by simp

section \<open>The health status\<close>
















section \<open>The keyword evaluator\<close>

lemma difficulty_int_value:
  assumes "in_float_range (real_of_int volume)" and "in_float_range (real_of_int apps)"
    and "apps \<noteq> 0"
  shows "calculate_keyword_difficulty_int tie_up volume apps =
     Inr (round1_with tie_up
       ((min (real_of_int apps / 50000) 1 * 0.7 + min (real_of_int volume / 1000000) 1 * 0.3) * 100))"
  using int_truediv_in_range [OF assms(1), of 1000000] int_truediv_in_range [OF assms(2), of 50000]
    assms(3)
  by (simp add: calculate_keyword_difficulty_int_def Let_def)

text \<open>
  The real-valued \<open>calculate_keyword_difficulty\<close>, which \<open>analyze_keyword\<close> uses, is the
  instance that breaks a tie towards the even digit.
\<close>

lemma round1_with_even: "round1_with (\<lambda>x. odd \<lfloor>x * 10\<rfloor>) x = py_round1 x"
  by (simp add: round1_with_def py_round1_def round_half_even_def Let_def)

lemma difficulty_int_agrees:
  assumes "in_float_range (real_of_int volume)" and "in_float_range (real_of_int apps)"
  shows "calculate_keyword_difficulty_int (\<lambda>x. odd \<lfloor>x * 10\<rfloor>) volume apps =
     Inr (calculate_keyword_difficulty (real_of_int volume) (real_of_int apps))"
proof (cases "apps = 0")
  case True
  then show ?thesis
    by (simp add: calculate_keyword_difficulty_int_def calculate_keyword_difficulty_def)
next
  case False
  show ?thesis
    using False
    by (simp add: difficulty_int_value [OF assms False] round1_with_even
        calculate_keyword_difficulty_def Let_def)
qed

text \<open>
  Claim C5 (as amended). For non-negative \<open>int\<close> arguments \<open>search_volume\<close> and
  \<open>competing_apps\<close> within the range of a float, the difficulty score is
  \<open>100 * (0.7 * min(competing_apps / 50000, 1) + 0.3 * min(search_volume / 1000000, 1))\<close>
  rounded to one decimal: a one-decimal value at most 0.05 away from it, the rounding of
  \<open>round\<close> unless the exact value lies halfway between two one-decimal values, where the
  float error decides. It is between 0 and 100, and it is exactly 0 whenever
  \<open>competing_apps = 0\<close>, whatever the search volume.
\<close>

theorem keyword_difficulty_rounded_formula:
  assumes "0 \<le> volume" and "0 \<le> apps"
    and "in_float_range (real_of_int volume)" and "in_float_range (real_of_int apps)"
  shows "\<exists>r. calculate_keyword_difficulty_int tie_up volume apps = Inr r
           \<and> one_decimal r \<and> 0 \<le> r \<and> r \<le> 100
           \<and> (apps = 0 \<longrightarrow> r = 0)
           \<and> (apps \<noteq> 0 \<longrightarrow>
                (let x = 100 * (0.7 * min (real_of_int apps / 50000) 1
                                + 0.3 * min (real_of_int volume / 1000000) 1)
                 in \<bar>r - x\<bar> \<le> 1 / 20
                    \<and> (x * 10 - of_int \<lfloor>x * 10\<rfloor> \<noteq> 1 / 2 \<longrightarrow> r = py_round1 x)))"
proof (cases "apps = 0")
  case True
  then show ?thesis
    by (simp add: calculate_keyword_difficulty_int_def one_decimal_0)
next
  case False
  define x where "x = 100 * (0.7 * min (real_of_int apps / 50000) 1
                                + 0.3 * min (real_of_int volume / 1000000) 1)"
  have xe: "(min (real_of_int apps / 50000) 1 * 0.7 + min (real_of_int volume / 1000000) 1 * 0.3) * 100 = x"
    by (simp add: x_def algebra_simps)
  have v: "calculate_keyword_difficulty_int tie_up volume apps = Inr (round1_with tie_up x)"
    using difficulty_int_value [OF assms(3,4) False] by (simp only: xe)
  have a: "0 \<le> min (real_of_int apps / 50000) 1" "min (real_of_int apps / 50000) 1 \<le> 1"
    using assms(2) by simp_all
  have b: "0 \<le> min (real_of_int volume / 1000000) 1" "min (real_of_int volume / 1000000) 1 \<le> 1"
    using assms(1) by simp_all
  have lo: "0 \<le> x" using a b by (simp add: x_def)
  have hi: "x \<le> 100" using a b by (simp add: x_def)
  have "one_decimal (round1_with tie_up x)" by (rule round1_with_one_decimal)
  moreover have "0 \<le> round1_with tie_up x" by (rule round1_with_lower [OF one_decimal_0 lo])
  moreover have "round1_with tie_up x \<le> 100" by (rule round1_with_upper [OF one_decimal_100 hi])
  moreover have "\<bar>round1_with tie_up x - x\<bar> \<le> 1 / 20" by (rule round1_with_near)
  moreover have "x * 10 - of_int \<lfloor>x * 10\<rfloor> \<noteq> 1 / 2 \<longrightarrow> round1_with tie_up x = py_round1 x"
    using round1_with_no_tie by blast
  ultimately show ?thesis using v False unfolding Let_def x_def [symmetric] by blast
qed



lemma py_round1_43: "py_round1 (43 / 10) = 43 / 10"
  using py_round1_fixed [of "43 / 10"] by (simp add: one_decimal_def)

text \<open>
  An ordinary keyword, no competition, and the arguments 500 and 25, whose exact value 0.05
  lies halfway: the result is 0.1 or 0.0 with the direction of the tie.
\<close>

theorem keyword_difficulty_rounded_formula_witness:
  "calculate_keyword_difficulty_int (\<lambda>x. True) 50000 2000 = Inr 4.3
   \<and> calculate_keyword_difficulty_int (\<lambda>x. True) 500000 0 = Inr 0
   \<and> calculate_keyword_difficulty_int (\<lambda>x. True) 500 25 = Inr 0.1
   \<and> calculate_keyword_difficulty_int (\<lambda>x. False) 500 25 = Inr 0"
proof -
  have r: "in_float_range (real_of_int 50000)" "in_float_range (real_of_int 2000)"
    "in_float_range (real_of_int 500000)" "in_float_range (real_of_int 0)"
    by (simp_all add: in_float_range_small)
  from keyword_difficulty_rounded_formula [OF _ _ r(1,2), of "\<lambda>x. True"]
  obtain r1 where r1: "calculate_keyword_difficulty_int (\<lambda>x. True) 50000 2000 = Inr r1"
    "r1 = py_round1 (43 / 10)"
    by (auto simp: Let_def)
  have a: "calculate_keyword_difficulty_int (\<lambda>x. True) 50000 2000 = Inr 4.3"
    using r1 py_round1_43 by simp
  from keyword_difficulty_rounded_formula [OF _ _ r(3,4), of "\<lambda>x. True"]
  have b: "calculate_keyword_difficulty_int (\<lambda>x. True) 500000 0 = Inr 0" by auto
  have s: "in_float_range (real_of_int 500)" "in_float_range (real_of_int 25)"
    by (simp_all add: in_float_range_small)
  have c: "calculate_keyword_difficulty_int (\<lambda>x. True) 500 25 = Inr 0.1"
    by (simp add: difficulty_int_value [OF s] round1_with_def)
  have d: "calculate_keyword_difficulty_int (\<lambda>x. False) 500 25 = Inr 0"
    by (simp add: difficulty_int_value [OF s] round1_with_def)
  show ?thesis using a b c d by blast
qed

lemma overflow_at_10_400: "float_overflow_bound \<le> 10 ^ 394"
proof -
  have "(2::real) ^ 1024 = (2 ^ 3) ^ 341 * 2" by (simp only: power_mult [symmetric]) simp
  also have "\<dots> \<le> 10 ^ 341 * 10"
    by (intro mult_mono power_mono) simp_all
  also have "\<dots> \<le> (10::real) ^ 394"
    by (simp only: power_Suc2 [symmetric]) (rule power_increasing, simp_all)
  finally have "(2::real) ^ 1024 \<le> 10 ^ 394" .
  moreover have "(0::real) \<le> 2 ^ 970" by simp
  ultimately show ?thesis unfolding float_overflow_bound_def by linarith
qed

lemma int_truediv_overflow_million: "int_truediv (10 ^ 400) 1000000 = Inl OverflowError"
proof -
  have e: "(10::int) ^ 400 = 10 ^ 394 * 10 ^ 6"
    using power_add [of "10::int" 394 6] by (simp only: numeral_plus_numeral semiring_norm)
  have a: "real_of_int (10 ^ 400) = 10 ^ 394 * 10 ^ 6"
    by (simp only: e of_int_mult of_int_power of_int_numeral)
  have b: "real_of_int 1000000 = 10 ^ 6" by simp
  have c: "(10::real) ^ 6 \<noteq> 0" by simp
  have q: "real_of_int (10 ^ 400) / real_of_int 1000000 = 10 ^ 394"
    unfolding a b by (rule nonzero_mult_div_cancel_right [OF c])
  have o: "float_overflow_bound \<le> \<bar>real_of_int (10 ^ 400) / real_of_int 1000000\<bar>"
    unfolding q using overflow_at_10_400 by (simp only: power_abs abs_numeral)
  have n: "((1000000::int) = 0) = False" by simp
  show ?thesis unfolding int_truediv_def by (simp only: n o if_False if_True)
qed

text \<open>
  Claim C5 as stated fails for an \<open>int\<close> beyond the range of a float: the division
  \<open>search_volume / 1000000\<close> raises \<open>OverflowError\<close>.
\<close>

theorem keyword_difficulty_overflow_counterexample:
  "(0::int) \<le> 10 ^ 400 \<and> (0::int) \<le> 25
   \<and> calculate_keyword_difficulty_int (\<lambda>x. True) (10 ^ 400) 25 = Inl OverflowError"
proof -
  have a: "int_truediv 25 50000 = Inr (real_of_int 25 / real_of_int 50000)"
    by (rule int_truediv_in_range) (simp_all add: in_float_range_small)
  have p: "(0::int) \<le> 10 ^ 400" by (rule zero_le_power) simp
  have q: "(0::int) \<le> 25" by simp
  have "calculate_keyword_difficulty_int (\<lambda>x. True) (10 ^ 400) 25 = Inl OverflowError"
    unfolding calculate_keyword_difficulty_int_def a int_truediv_overflow_million
    by simp
  then show ?thesis using p q by (intro conjI)
qed

text \<open>
  Claim C4. The recommendation of \<open>analyze_keyword\<close> is "Low relevance - avoid
  targeting" whenever \<open>relevance_score < 0.5\<close>, whatever the potential and difficulty
  scores are. For \<open>relevance_score \<ge> 0.5\<close> it follows the ladder on the potential score:
  at least 70 high priority, at least 50 split by \<open>difficulty_score < 50\<close>, at least 30
  long-tail, otherwise deprioritize.
\<close>

theorem recommendation_ladder:
  "let a = fst (analyze_keyword self kw volume apps relevance)
   in (relevance < 0.5 \<longrightarrow> recommendation a = ''Low relevance - avoid targeting'')
      \<and> (0.5 \<le> relevance \<and> 70 \<le> potential_score a \<longrightarrow>
           recommendation a = ''High priority - target immediately'')
      \<and> (0.5 \<le> relevance \<and> 50 \<le> potential_score a \<and> potential_score a < 70
            \<and> difficulty_score a < 50 \<longrightarrow>
           recommendation a = ''Good opportunity - include in metadata'')
      \<and> (0.5 \<le> relevance \<and> 50 \<le> potential_score a \<and> potential_score a < 70
            \<and> 50 \<le> difficulty_score a \<longrightarrow>
           recommendation a = ''Competitive - use in description, not title'')
      \<and> (0.5 \<le> relevance \<and> 30 \<le> potential_score a \<and> potential_score a < 50 \<longrightarrow>
           recommendation a = ''Secondary keyword - use for long-tail variations'')
      \<and> (0.5 \<le> relevance \<and> potential_score a < 30 \<longrightarrow>
           recommendation a = ''Low potential - deprioritize'')"
  by (simp add: analyze_keyword_def Let_def generate_recommendation_def)

lemma potential_example: "calculate_potential_score 50000 2000 0.9 = 73"
  using py_round1_int [of 73] by (simp add: calculate_potential_score_def Let_def)

text \<open>The same keyword with relevance 0.3 and with relevance 0.9 (potential score 73).\<close>

theorem recommendation_ladder_witness:
  "recommendation (fst (analyze_keyword KeywordAnalyzer_init ''best budget tracker'' 50000 2000 0.3))
     = ''Low relevance - avoid targeting''
   \<and> recommendation (fst (analyze_keyword KeywordAnalyzer_init ''best budget tracker'' 50000 2000 0.9))
     = ''High priority - target immediately''"
proof -
  have p: "potential_score (fst (analyze_keyword KeywordAnalyzer_init ''best budget tracker'' 50000 2000 0.9)) = 73"
    using potential_example by (simp add: analyze_keyword_def Let_def)
  show ?thesis
    using recommendation_ladder [of KeywordAnalyzer_init "''best budget tracker''" 50000 2000 "0.3"]
      recommendation_ladder [of KeywordAnalyzer_init "''best budget tracker''" 50000 2000 "0.9"] p
    by (simp add: Let_def)
qed

section \<open>The cluster score\<close>

lemma py_truediv_nonzero: "b \<noteq> 0 \<Longrightarrow> py_truediv a b = Inr (a / b)"
  by (simp add: py_truediv_def)

lemma score_loop_returns:
  "\<exists>tv' tr' tp'. score_loop kws kd (tv, tr, tp, c) = Inr (tv', tr', tp', c + length kws)"
proof (induction kws arbitrary: tv tr tp c)
  case Nil
  show ?case by simp
next
  case (Cons kw kws)
  have step: "\<exists>tv' tr' tp'. score_loop kws kd (a, b, d, Suc c) = Inr (tv', tr', tp', Suc (c + length kws))"
    for a b d
    using Cons.IH [of a b d "Suc c"] by simp
  show ?case by (simp add: Let_def py_truediv_nonzero step)
qed

lemma score_loop_missing:
  "\<forall>k\<in>set kws. kd k = None \<Longrightarrow>
   score_loop kws kd (tv, tr, tp, c) = Inr (tv, tr + real (length kws) * 0.5, tp, c + length kws)"
proof (induction kws arbitrary: tv tr tp c)
  case Nil
  show ?case by simp
next
  case (Cons kw kws)
  then show ?case
    by (simp add: Let_def dict_get_def empty_data_def py_truediv_nonzero algebra_simps)
qed

lemma score_loop_cong:
  assumes "\<forall>k\<in>set kws.
      dict_get (data_search_volume (dict_get (kd1 k) empty_data)) 0 =
        dict_get (data_search_volume (dict_get (kd2 k) empty_data)) 0
      \<and> dict_get (data_competing_apps (dict_get (kd1 k) empty_data)) 5000 =
        dict_get (data_competing_apps (dict_get (kd2 k) empty_data)) 5000
      \<and> dict_get (data_relevance_score (dict_get (kd1 k) empty_data)) 0.5 =
        dict_get (data_relevance_score (dict_get (kd2 k) empty_data)) 0.5"
  shows "score_loop kws kd1 st = score_loop kws kd2 st"
  using assms
proof (induction kws arbitrary: st)
  case Nil
  show ?case by simp
next
  case (Cons kw kws)
  obtain tv tr tp c where st: "st = (tv, tr, tp, c)" by (cases st) auto
  have tl: "\<And>st'. score_loop kws kd1 st' = score_loop kws kd2 st'"
    using Cons by simp
  have hd: "dict_get (data_search_volume (dict_get (kd1 kw) empty_data)) 0 =
        dict_get (data_search_volume (dict_get (kd2 kw) empty_data)) 0"
      "dict_get (data_competing_apps (dict_get (kd1 kw) empty_data)) 5000 =
        dict_get (data_competing_apps (dict_get (kd2 kw) empty_data)) 5000"
      "dict_get (data_relevance_score (dict_get (kd1 kw) empty_data)) 0.5 =
        dict_get (data_relevance_score (dict_get (kd2 kw) empty_data)) 0.5"
    using Cons.prems by simp_all
  show ?case
    unfolding st score_loop.simps Let_def hd tl ..
qed

lemma score_cluster_returns: "\<exists>s. score_cluster kws kw_data = Inr s"
proof -
  obtain tv tr tp where l: "score_loop kws (map_of (the kw_data)) (0, 0.0, 0.0, 0) = Inr (tv, tr, tp, 0 + length kws)"
    using score_loop_returns [of kws "map_of (the kw_data)" 0 "0.0" "0.0" 0] by blast
  show ?thesis
    unfolding score_cluster_def l
    by (simp add: py_truediv_nonzero Let_def)
qed

text \<open>
  Claim C10. With a non-empty \<open>keyword_data\<close>, a member keyword that is absent from it
  contributes to the cluster score as an entry with \<open>search_volume = 0\<close>,
  \<open>competing_apps = 5000\<close> and \<open>relevance_score = 0.5\<close> would. A cluster whose keywords
  are all absent scores \<open>0.5 * 30 = 15\<close> relevance points plus \<open>min(count * 2, 10)\<close>
  diversity points. The count-only proxy \<open>min(count * 10, 50)\<close> is the score only when
  \<open>keyword_data\<close> is absent or empty.
\<close>

theorem score_cluster_missing_keywords:
  assumes "kws \<noteq> []" and "kd \<noteq> []"
  shows "(map_of kd k = None \<longrightarrow>
            score_cluster kws (Some kd) =
            score_cluster kws (Some (kd @ [(k, \<lparr>data_search_volume = Some 0,
               data_competing_apps = Some 5000, data_relevance_score = Some 0.5\<rparr>)])))
         \<and> ((\<forall>k\<in>set kws. map_of kd k = None) \<longrightarrow>
            score_cluster kws (Some kd) = Inr (0.5 * 30 + min (real (length kws) * 2) 10))
         \<and> score_cluster kws None = Inr (min (real (length kws) * 10) 50)
         \<and> score_cluster kws (Some []) = Inr (min (real (length kws) * 10) 50)"
proof (intro conjI impI)
  assume miss: "map_of kd k = None"
  let ?kd' = "kd @ [(k, \<lparr>data_search_volume = Some 0,
               data_competing_apps = Some 5000, data_relevance_score = Some 0.5\<rparr>)]"
  have "score_loop kws (map_of kd) st = score_loop kws (map_of ?kd') st" for st
    by (rule score_loop_cong)
      (use miss in \<open>auto simp: map_add_def dict_get_def empty_data_def split: option.splits\<close>)
  then show "score_cluster kws (Some kd) = score_cluster kws (Some ?kd')"
    using assms by (simp add: score_cluster_def)
next
  assume "\<forall>k\<in>set kws. map_of kd k = None"
  then have l: "score_loop kws (map_of kd) (0, 0, 0, 0) = Inr (0, 0 + real (length kws) * 0.5, 0, 0 + length kws)"
    by (rule score_loop_missing)
  have n: "length kws \<noteq> 0" using assms by simp
  have "min (real (length kws) * 2) 10 = of_int (min (int (length kws) * 2) 10)"
    by (simp add: min_def)
  then have "15 + min (real (length kws) * 2) 10 = of_int (15 + min (int (length kws) * 2) 10)"
    by simp
  then have r: "py_round1 (15 + min (real (length kws) * 2) 10) = 15 + min (real (length kws) * 2) 10"
    using py_round1_int [of "15 + min (int (length kws) * 2) 10"] by simp
  show "score_cluster kws (Some kd) = Inr (0.5 * 30 + min (real (length kws) * 2) 10)"
    using assms n r by (simp add: score_cluster_def l py_truediv_nonzero)
next
  show "score_cluster kws None = Inr (min (real (length kws) * 10) 50)"
    using assms by (simp add: score_cluster_def)
next
  show "score_cluster kws (Some []) = Inr (min (real (length kws) * 10) 50)"
    using assms by (simp add: score_cluster_def)
qed

text \<open>Three keywords, none of them a key of the data.\<close>

theorem score_cluster_missing_keywords_witness:
  "score_cluster [''a'', ''b'', ''c''] (Some [(''zzz'', empty_data)]) = Inr 21
   \<and> score_cluster [''a'', ''b'', ''c''] (Some [(''zzz'', empty_data)]) =
       score_cluster [''a'', ''b'', ''c''] (Some [(''zzz'', empty_data),
         (''a'', \<lparr>data_search_volume = Some 0, data_competing_apps = Some 5000,
            data_relevance_score = Some 0.5\<rparr>)])
   \<and> score_cluster [''a'', ''b'', ''c''] None = Inr 30
   \<and> score_cluster [''a'', ''b'', ''c''] (Some []) = Inr 30"
proof -
  have h1: "[''a'', ''b'', ''c''] \<noteq> []" by simp
  have h2: "[(''zzz'', empty_data)] \<noteq> []" by simp
  note w = score_cluster_missing_keywords [OF h1 h2, of "''a''"]
  have m: "map_of [(''zzz'', empty_data)] ''a'' = None" by simp
  have al: "\<forall>k\<in>set [''a'', ''b'', ''c'']. map_of [(''zzz'', empty_data)] k = None" by simp
  have "score_cluster [''a'', ''b'', ''c''] (Some [(''zzz'', empty_data)]) =
      Inr (0.5 * 30 + min (real (length [''a'', ''b'', ''c'']) * 2) 10)"
    using w al by blast
  then have a: "score_cluster [''a'', ''b'', ''c''] (Some [(''zzz'', empty_data)]) = Inr 21"
    by simp
  have "score_cluster [''a'', ''b'', ''c''] (Some [(''zzz'', empty_data)]) =
       score_cluster [''a'', ''b'', ''c''] (Some ([(''zzz'', empty_data)] @
         [(''a'', \<lparr>data_search_volume = Some 0, data_competing_apps = Some 5000,
            data_relevance_score = Some 0.5\<rparr>)]))"
    using w m by blast
  then have b: "score_cluster [''a'', ''b'', ''c''] (Some [(''zzz'', empty_data)]) =
       score_cluster [''a'', ''b'', ''c''] (Some [(''zzz'', empty_data),
         (''a'', \<lparr>data_search_volume = Some 0, data_competing_apps = Some 5000,
            data_relevance_score = Some 0.5\<rparr>)])"
    by simp
  have "score_cluster [''a'', ''b'', ''c''] None = Inr (min (real (length [''a'', ''b'', ''c'']) * 10) 50)"
    using w by blast
  then have c: "score_cluster [''a'', ''b'', ''c''] None = Inr 30" by simp
  have "score_cluster [''a'', ''b'', ''c''] (Some []) = Inr (min (real (length [''a'', ''b'', ''c'']) * 10) 50)"
    using w by blast
  then have d: "score_cluster [''a'', ''b'', ''c''] (Some []) = Inr 30" by simp
  show ?thesis using a b c d by blast
qed

section \<open>The intent clusterer\<close>

subsection \<open>The inner loop: the first category of largest overlap\<close>

lemma intent_loop_first_max:
  assumes "intent_loop ws T (m, b) = (m', b')"
  shows "b \<le> b' \<and> (\<forall>t\<in>set T. card (set ws \<inter> set (snd t)) \<le> b')
       \<and> ((m' = m \<and> b' = b)
          \<or> (\<exists>i<length T. m' = Some (fst (T ! i)) \<and> card (set ws \<inter> set (snd (T ! i))) = b'
                \<and> b < b' \<and> (\<forall>j<i. card (set ws \<inter> set (snd (T ! j))) < b')))"
  using assms
proof (induction T arbitrary: m b)
  case Nil
  then show ?case by simp
next
  case (Cons t T)
  obtain name iw where t: "t = (name, iw)" by (cases t) auto
  let ?o = "card (set ws \<inter> set iw)"
  show ?case
  proof (cases "?o > b")
    case True
    then have run: "intent_loop ws T (Some name, ?o) = (m', b')"
      using Cons.prems by (simp add: t Let_def)
    note ih = Cons.IH [OF run]
    from ih have le: "?o \<le> b'" and all: "\<forall>t\<in>set T. card (set ws \<inter> set (snd t)) \<le> b'"
      by blast+
    from ih consider (same) "m' = Some name" "b' = ?o"
      | (later) i where "i < length T" "m' = Some (fst (T ! i))"
          "card (set ws \<inter> set (snd (T ! i))) = b'" "?o < b'"
          "\<forall>j<i. card (set ws \<inter> set (snd (T ! j))) < b'"
      by blast
    then have "\<exists>i<length (t # T). m' = Some (fst ((t # T) ! i))
        \<and> card (set ws \<inter> set (snd ((t # T) ! i))) = b' \<and> b < b'
        \<and> (\<forall>j<i. card (set ws \<inter> set (snd ((t # T) ! j))) < b')"
    proof cases
      case same
      then show ?thesis using True by (intro exI [of _ 0]) (simp add: t)
    next
      case later
      have "\<forall>j<Suc i. card (set ws \<inter> set (snd ((t # T) ! j))) < b'"
        using later(4,5) by (auto simp: t less_Suc_eq_0_disj)
      then show ?thesis
        using later True by (intro exI [of _ "Suc i"]) simp
    qed
    then show ?thesis using le all True by (auto simp: t)
  next
    case False
    then have run: "intent_loop ws T (m, b) = (m', b')"
      using Cons.prems by (simp add: t Let_def)
    note ih = Cons.IH [OF run]
    from ih have le: "b \<le> b'" and all: "\<forall>t\<in>set T. card (set ws \<inter> set (snd t)) \<le> b'"
      by blast+
    from ih consider (same) "m' = m" "b' = b"
      | (later) i where "i < length T" "m' = Some (fst (T ! i))"
          "card (set ws \<inter> set (snd (T ! i))) = b'" "b < b'"
          "\<forall>j<i. card (set ws \<inter> set (snd (T ! j))) < b'"
      by blast
    then have "(m' = m \<and> b' = b) \<or> (\<exists>i<length (t # T). m' = Some (fst ((t # T) ! i))
        \<and> card (set ws \<inter> set (snd ((t # T) ! i))) = b' \<and> b < b'
        \<and> (\<forall>j<i. card (set ws \<inter> set (snd ((t # T) ! j))) < b'))"
    proof cases
      case same
      then show ?thesis by simp
    next
      case later
      have "\<forall>j<Suc i. card (set ws \<inter> set (snd ((t # T) ! j))) < b'"
        using later(4,5) False by (auto simp: t less_Suc_eq_0_disj)
      then have "\<exists>i<length (t # T). m' = Some (fst ((t # T) ! i))
        \<and> card (set ws \<inter> set (snd ((t # T) ! i))) = b' \<and> b < b'
        \<and> (\<forall>j<i. card (set ws \<inter> set (snd ((t # T) ! j))) < b')"
        using later by (intro exI [of _ "Suc i"]) simp
      then show ?thesis by blast
    qed
    moreover have "card (set ws \<inter> set (snd t)) \<le> b'" using False le by (simp add: t)
    ultimately show ?thesis using le all by auto
  qed
qed

lemma intent_names_nonempty: "\<forall>t\<in>set INTENT_CATEGORIES. fst t \<noteq> [] \<and> fst t \<noteq> ''general''"
  by (simp add: INTENT_CATEGORIES_def)

lemma bucket_of_cases:
  "(bucket_of kw = None
      \<and> (\<forall>i<length INTENT_CATEGORIES.
            card (set (findall_words (lower kw)) \<inter> set (snd (INTENT_CATEGORIES ! i))) = 0))
   \<or> (\<exists>i<length INTENT_CATEGORIES. bucket_of kw = Some (fst (INTENT_CATEGORIES ! i))
        \<and> 0 < card (set (findall_words (lower kw)) \<inter> set (snd (INTENT_CATEGORIES ! i)))
        \<and> (\<forall>j<length INTENT_CATEGORIES.
              card (set (findall_words (lower kw)) \<inter> set (snd (INTENT_CATEGORIES ! j)))
              \<le> card (set (findall_words (lower kw)) \<inter> set (snd (INTENT_CATEGORIES ! i))))
        \<and> (\<forall>j<i. card (set (findall_words (lower kw)) \<inter> set (snd (INTENT_CATEGORIES ! j)))
              < card (set (findall_words (lower kw)) \<inter> set (snd (INTENT_CATEGORIES ! i)))))"
proof -
  let ?T = INTENT_CATEGORIES
  let ?ws = "findall_words (lower kw)"
  obtain m' b' where r: "match_intent kw = (m', b')" by (cases "match_intent kw") auto
  then have run: "intent_loop ?ws ?T (None, 0) = (m', b')" by (simp add: match_intent_def)
  note fm = intent_loop_first_max [OF run]
  from fm have all: "\<forall>j<length ?T. card (set ?ws \<inter> set (snd (?T ! j))) \<le> b'"
    by (auto simp: all_set_conv_all_nth)
  from fm consider (none) "m' = None" "b' = 0"
    | (some) i where "i < length ?T" "m' = Some (fst (?T ! i))"
        "card (set ?ws \<inter> set (snd (?T ! i))) = b'" "0 < b'"
        "\<forall>j<i. card (set ?ws \<inter> set (snd (?T ! j))) < b'"
    by blast
  then show ?thesis
  proof cases
    case none
    then have "bucket_of kw = None" by (simp add: bucket_of_def r)
    then show ?thesis using all none by simp
  next
    case some
    have "fst (?T ! i) \<noteq> []" using intent_names_nonempty some(1) by (simp add: all_set_conv_all_nth)
    then have "bucket_of kw = Some (fst (?T ! i))" using some by (simp add: bucket_of_def r)
    then show ?thesis using some all by blast
  qed
qed

subsection \<open>The outer loop: every keyword lands in the bucket chosen for it\<close>

lemma cluster_loop_step:
  "cluster_loop (kw # rest) (clusters, unclustered) =
     (case bucket_of kw of
        Some i \<Rightarrow> cluster_loop rest (cluster_append clusters i kw, unclustered)
      | None \<Rightarrow> cluster_loop rest (clusters, unclustered @ [kw]))"
  by (cases "match_intent kw") (auto simp: bucket_of_def split: option.splits)

lemma cluster_append_sound:
  "(j, ks') \<in> set (cluster_append cl i kw) \<Longrightarrow>
   (j, ks') \<in> set cl \<or> (j = i \<and> (ks' = [kw] \<or> (\<exists>ks. (i, ks) \<in> set cl \<and> ks' = ks @ [kw])))"
  by (induction cl) (auto split: if_splits)

lemma cluster_append_new: "\<exists>ks. (i, ks) \<in> set (cluster_append cl i kw) \<and> kw \<in> set ks"
proof (induction cl)
  case Nil
  show ?case by simp
next
  case (Cons p cl)
  obtain j ks where p: "p = (j, ks)" by (cases p) auto
  show ?case
  proof (cases "j = i")
    case True
    have "(i, ks @ [kw]) \<in> set (cluster_append (p # cl) i kw)" using True by (simp add: p)
    then show ?thesis by (intro exI [of _ "ks @ [kw]"]) simp
  next
    case False
    then show ?thesis using Cons by (auto simp: p)
  qed
qed

lemma cluster_append_keeps:
  "(j, ks) \<in> set cl \<Longrightarrow> \<exists>ks'. (j, ks') \<in> set (cluster_append cl i kw) \<and> set ks \<subseteq> set ks'"
proof (induction cl)
  case Nil
  then show ?case by simp
next
  case (Cons p cl)
  obtain j0 ks0 where p: "p = (j0, ks0)" by (cases p) auto
  show ?case
  proof (cases "(j, ks) = p")
    case True
    show ?thesis
    proof (cases "j0 = i")
      case True
      have "(j, ks @ [kw]) \<in> set (cluster_append (p # cl) i kw)"
        using True \<open>(j, ks) = p\<close> by (simp add: p)
      then show ?thesis by (intro exI [of _ "ks @ [kw]"]) auto
    next
      case False
      have "(j, ks) \<in> set (cluster_append (p # cl) i kw)"
        using False \<open>(j, ks) = p\<close> by (simp add: p)
      then show ?thesis by (intro exI [of _ ks]) simp
    qed
  next
    case False
    then have "(j, ks) \<in> set cl" using Cons.prems by simp
    from Cons.IH [OF this] obtain ks' where
      k: "(j, ks') \<in> set (cluster_append cl i kw)" "set ks \<subseteq> set ks'" by blast
    have "j0 = i \<Longrightarrow> (j, ks) \<in> set (cluster_append (p # cl) i kw)"
      using \<open>(j, ks) \<in> set cl\<close> by (simp add: p)
    moreover have "j0 \<noteq> i \<Longrightarrow> (j, ks') \<in> set (cluster_append (p # cl) i kw)"
      using k by (simp add: p)
    ultimately show ?thesis using k(2) by (cases "j0 = i") blast+
  qed
qed

lemma cluster_loop_sound:
  assumes "cluster_loop kws (cl, un) = (cl', un')"
    and "\<forall>(i, ks)\<in>set cl. \<forall>k\<in>set ks. bucket_of k = Some i \<and> k \<in> A"
    and "\<forall>k\<in>set un. bucket_of k = None \<and> k \<in> A"
    and "set kws \<subseteq> A"
  shows "(\<forall>(i, ks)\<in>set cl'. \<forall>k\<in>set ks. bucket_of k = Some i \<and> k \<in> A)
       \<and> (\<forall>k\<in>set un'. bucket_of k = None \<and> k \<in> A)"
  using assms
proof (induction kws arbitrary: cl un)
  case Nil
  then show ?case by simp
next
  case (Cons kw kws)
  show ?case
  proof (cases "bucket_of kw")
    case None
    then have run: "cluster_loop kws (cl, un @ [kw]) = (cl', un')"
      using Cons.prems(1) by (simp only: cluster_loop_step option.case)
    show ?thesis
      by (rule Cons.IH [OF run]) (use Cons.prems None in auto)
  next
    case (Some i)
    then have run: "cluster_loop kws (cluster_append cl i kw, un) = (cl', un')"
      using Cons.prems(1) by (simp only: cluster_loop_step option.case)
    have "\<forall>(j, ks)\<in>set (cluster_append cl i kw). \<forall>k\<in>set ks. bucket_of k = Some j \<and> k \<in> A"
    proof (clarify)
      fix j ks k
      assume m: "(j, ks) \<in> set (cluster_append cl i kw)" and k: "k \<in> set ks"
      from cluster_append_sound [OF m] show "bucket_of k = Some j \<and> k \<in> A"
        using Cons.prems(2,4) Some k by fastforce
    qed
    then show ?thesis
      by (intro Cons.IH [OF run]) (use Cons.prems in auto)
  qed
qed

lemma cluster_loop_complete:
  assumes "cluster_loop kws (cl, un) = (cl', un')"
  shows "(\<forall>k\<in>set kws. case bucket_of k of
             Some i \<Rightarrow> \<exists>ks. (i, ks) \<in> set cl' \<and> k \<in> set ks
           | None \<Rightarrow> k \<in> set un')
       \<and> (\<forall>(j, ks)\<in>set cl. \<exists>ks'. (j, ks') \<in> set cl' \<and> set ks \<subseteq> set ks')
       \<and> set un \<subseteq> set un'"
  using assms
proof (induction kws arbitrary: cl un)
  case Nil
  then show ?case by auto
next
  case (Cons kw kws)
  show ?case
  proof (cases "bucket_of kw")
    case None
    then have run: "cluster_loop kws (cl, un @ [kw]) = (cl', un')"
      using Cons.prems(1) by (simp only: cluster_loop_step option.case)
    from Cons.IH [OF run] show ?thesis using None by auto
  next
    case (Some i)
    then have run: "cluster_loop kws (cluster_append cl i kw, un) = (cl', un')"
      using Cons.prems(1) by (simp only: cluster_loop_step option.case)
    note ih = Cons.IH [OF run]
    from ih have keep: "\<forall>(j, ks)\<in>set (cluster_append cl i kw). \<exists>ks'. (j, ks') \<in> set cl' \<and> set ks \<subseteq> set ks'"
      by blast
    have new: "\<exists>ks. (i, ks) \<in> set cl' \<and> kw \<in> set ks"
      using cluster_append_new [of i cl kw] keep by fastforce
    have old: "\<forall>(j, ks)\<in>set cl. \<exists>ks'. (j, ks') \<in> set cl' \<and> set ks \<subseteq> set ks'"
    proof (clarify)
      fix j ks assume "(j, ks) \<in> set cl"
      from cluster_append_keeps [OF this, of i kw] obtain ks1
        where a: "(j, ks1) \<in> set (cluster_append cl i kw)" "set ks \<subseteq> set ks1" by blast
      from keep a(1) obtain ks' where "(j, ks') \<in> set cl'" "set ks1 \<subseteq> set ks'" by blast
      then show "\<exists>ks'. (j, ks') \<in> set cl' \<and> set ks \<subseteq> set ks'" using a(2) by blast
    qed
    show ?thesis using ih new old Some by auto
  qed
qed

subsection \<open>Building and sorting the clusters\<close>

lemma build_clusters_returns:
  "\<exists>cs. build_clusters set_order cl kw_data = Inr cs
     \<and> map (\<lambda>c. (intent c, member_keywords c)) cs = cl
     \<and> (\<forall>c\<in>set cs. name c = title (intent c) @ '' Intent'' \<and> natural_queries c =
            generate_natural_queries set_order (intent c) (member_keywords c) 5)"
proof (induction cl)
  case Nil
  show ?case by simp
next
  case (Cons p cl)
  obtain i ks where p: "p = (i, ks)" by (cases p) auto
  obtain s where s: "score_cluster ks kw_data = Inr s" using score_cluster_returns by blast
  from Cons obtain cs where cs: "build_clusters set_order cl kw_data = Inr cs"
     "map (\<lambda>c. (intent c, member_keywords c)) cs = cl"
     "\<forall>c\<in>set cs. name c = title (intent c) @ '' Intent'' \<and> natural_queries c =
        generate_natural_queries set_order (intent c) (member_keywords c) 5"
    by blast
  show ?case by (simp add: p s cs)
qed

lemma cluster_loop_unclustered:
  "snd (cluster_loop kws (cl, un)) = un @ filter (\<lambda>k. bucket_of k = None) kws"
proof (induction kws arbitrary: cl un)
  case Nil
  show ?case by simp
next
  case (Cons kw kws)
  show ?case
    by (cases "bucket_of kw") (simp_all only: cluster_loop_step option.case Cons.IH, simp_all)
qed

lemma cluster_loop_nonempty:
  assumes "cluster_loop kws (cl, un) = (cl', un')" and "\<forall>(i, ks)\<in>set cl. ks \<noteq> []"
  shows "\<forall>(i, ks)\<in>set cl'. ks \<noteq> []"
  using assms
proof (induction kws arbitrary: cl un)
  case Nil
  then show ?case by simp
next
  case (Cons kw kws)
  show ?case
  proof (cases "bucket_of kw")
    case None
    then have run: "cluster_loop kws (cl, un @ [kw]) = (cl', un')"
      using Cons.prems(1) by (simp only: cluster_loop_step option.case)
    show ?thesis by (rule Cons.IH [OF run Cons.prems(2)])
  next
    case (Some i)
    then have run: "cluster_loop kws (cluster_append cl i kw, un) = (cl', un')"
      using Cons.prems(1) by (simp only: cluster_loop_step option.case)
    have "\<forall>(j, ks)\<in>set (cluster_append cl i kw). ks \<noteq> []"
    proof (clarify)
      fix j assume "(j, []) \<in> set (cluster_append cl i kw)"
      from cluster_append_sound [OF this] show False using Cons.prems(2) by auto
    qed
    then show ?thesis by (rule Cons.IH [OF run])
  qed
qed

lemma bucket_of_name:
  "bucket_of k = Some i \<Longrightarrow> i \<in> fst ` set INTENT_CATEGORIES \<and> i \<noteq> ''general''"
proof -
  assume b: "bucket_of k = Some i"
  from bucket_of_cases [of k] b obtain n where "n < length INTENT_CATEGORIES"
    "i = fst (INTENT_CATEGORIES ! n)" by auto
  then have "i \<in> fst ` set INTENT_CATEGORIES" by (metis imageI nth_mem)
  then show ?thesis using intent_names_nonempty by auto
qed

text \<open>The shape of the result of \<open>cluster_by_intent\<close>.\<close>

lemma cluster_by_intent_returns:
  assumes "cluster_loop kws ([], []) = (cl, un)"
  shows "\<exists>res cs. cluster_by_intent set_order kws kw_data = Inr res
     \<and> map (\<lambda>c. (intent c, member_keywords c)) cs = cl
     \<and> (\<forall>c\<in>set cs. name c = title (intent c) @ '' Intent'' \<and> natural_queries c =
            generate_natural_queries set_order (intent c) (member_keywords c) 5)
     \<and> (if un = [] then set res = set cs
         else \<exists>s. set res = insert \<lparr>name = ''General'', intent = ''general'',
                 member_keywords = un, keyword_count = length un, natural_queries = [],
                 combined_score = s\<rparr> (set cs))"
proof -
  from build_clusters_returns [of set_order cl kw_data] obtain cs where
    cs: "build_clusters set_order cl kw_data = Inr cs"
        "map (\<lambda>c. (intent c, member_keywords c)) cs = cl"
        "\<forall>c\<in>set cs. name c = title (intent c) @ '' Intent'' \<and> natural_queries c =
            generate_natural_queries set_order (intent c) (member_keywords c) 5"
    by blast
  obtain s where s: "score_cluster un kw_data = Inr s" using score_cluster_returns by blast
  show ?thesis
  proof (cases "un = []")
    case True
    have "cluster_by_intent set_order kws kw_data = Inr (sort_key (\<lambda>c. - combined_score c) cs)"
      by (simp add: cluster_by_intent_def assms cs(1) True)
    then show ?thesis using cs(2,3) True by auto
  next
    case False
    have "cluster_by_intent set_order kws kw_data =
        Inr (sort_key (\<lambda>c. - combined_score c) (cs @ [\<lparr>name = ''General'', intent = ''general'',
                 member_keywords = un, keyword_count = length un, natural_queries = [],
                 combined_score = s\<rparr>]))"
      by (simp add: cluster_by_intent_def assms cs(1) False s)
    then show ?thesis using cs(2,3) False by auto
  qed
qed

subsection \<open>The generated queries: capped and without duplicates\<close>

lemma template_loop_inv:
  assumes "template_loop obj ts m qs = (qs', flag)" and "distinct qs" and "int (length qs) < m"
  shows "distinct qs' \<and> (if flag then int (length qs') = m else int (length qs') < m)"
  using assms
proof (induction ts arbitrary: qs)
  case Nil
  then show ?case by auto
next
  case (Cons t ts)
  let ?q = "format_template t obj"
  show ?case
  proof (cases "?q \<in> set qs")
    case True
    then have "template_loop obj ts m qs = (qs', flag)" using Cons.prems(1) by simp
    from Cons.IH [OF this Cons.prems(2,3)] show ?thesis .
  next
    case False
    show ?thesis
    proof (cases "int (length (qs @ [?q])) \<ge> m")
      case True
      then have "qs' = qs @ [?q]" "flag" using Cons.prems(1) False by (simp_all add: Let_def)
      then show ?thesis using True Cons.prems(2,3) False by auto
    next
      case notyet: False
      then have run: "template_loop obj ts m (qs @ [?q]) = (qs', flag)"
        using Cons.prems(1) False by (simp add: Let_def)
      have "distinct (qs @ [?q])" using Cons.prems(2) False by simp
      moreover have "int (length (qs @ [?q])) < m" using notyet by simp
      ultimately show ?thesis by (rule Cons.IH [OF run])
    qed
  qed
qed

lemma query_loop_inv:
  assumes "distinct qs" and "int (length qs) < m"
  shows "distinct (query_loop objs ts m qs) \<and> int (length (query_loop objs ts m qs)) \<le> m"
  using assms
proof (induction objs arbitrary: qs)
  case Nil
  then show ?case by simp
next
  case (Cons obj objs)
  obtain qs' flag where t: "template_loop obj ts m qs = (qs', flag)"
    by (cases "template_loop obj ts m qs") auto
  note inv = template_loop_inv [OF t Cons.prems]
  show ?case
  proof (cases flag)
    case True
    then show ?thesis using inv by (simp add: t)
  next
    case False
    then have "distinct qs'" "int (length qs') < m" using inv by simp_all
    from Cons.IH [OF this] show ?thesis using False by (simp add: t)
  qed
qed

lemma generate_natural_queries_capped:
  assumes "0 \<le> m"
  shows "distinct (generate_natural_queries set_order i kws m)
       \<and> int (length (generate_natural_queries set_order i kws m)) \<le> m"
proof (cases "m = 0")
  case True
  then show ?thesis by (simp add: generate_natural_queries_def Let_def slice_to_def)
next
  case False
  then have "int (length ([]::string list)) < m" using assms by simp
  then show ?thesis
    unfolding generate_natural_queries_def Let_def
    by (intro query_loop_inv) simp_all
qed

lemma cluster_facts:
  obtains cl un res cs where
    "cluster_loop kws ([], []) = (cl, un)"
    "cluster_by_intent set_order kws kw_data = Inr res"
    "map (\<lambda>c. (intent c, member_keywords c)) cs = cl"
    "\<forall>c\<in>set cs. name c = title (intent c) @ '' Intent'' \<and> natural_queries c =
        generate_natural_queries set_order (intent c) (member_keywords c) 5"
    "if un = [] then set res = set cs
     else \<exists>s. set res = insert \<lparr>name = ''General'', intent = ''general'',
             member_keywords = un, keyword_count = length un, natural_queries = [],
             combined_score = s\<rparr> (set cs)"
    "\<forall>c\<in>set cs. member_keywords c \<noteq> []
        \<and> (\<forall>k\<in>set (member_keywords c). bucket_of k = Some (intent c) \<and> k \<in> set kws)"
    "\<forall>k\<in>set un. bucket_of k = None \<and> k \<in> set kws"
    "\<forall>k\<in>set kws. case bucket_of k of
         Some i \<Rightarrow> \<exists>c\<in>set cs. intent c = i \<and> k \<in> set (member_keywords c)
       | None \<Rightarrow> k \<in> set un"
    "un = filter (\<lambda>k. bucket_of k = None) kws"
proof -
  obtain cl un where l: "cluster_loop kws ([], []) = (cl, un)"
    by (cases "cluster_loop kws ([], [])") auto
  from cluster_by_intent_returns [OF l, of set_order kw_data] obtain res cs where
    r: "cluster_by_intent set_order kws kw_data = Inr res"
       "map (\<lambda>c. (intent c, member_keywords c)) cs = cl"
       "\<forall>c\<in>set cs. name c = title (intent c) @ '' Intent'' \<and> natural_queries c =
          generate_natural_queries set_order (intent c) (member_keywords c) 5"
       "if un = [] then set res = set cs
        else \<exists>s. set res = insert \<lparr>name = ''General'', intent = ''general'',
             member_keywords = un, keyword_count = length un, natural_queries = [],
             combined_score = s\<rparr> (set cs)"
    by blast
  have mem: "c \<in> set cs \<Longrightarrow> (intent c, member_keywords c) \<in> set cl" for c
    using r(2) by force
  have snd: "(\<forall>(i, ks)\<in>set cl. \<forall>k\<in>set ks. bucket_of k = Some i \<and> k \<in> set kws)
       \<and> (\<forall>k\<in>set un. bucket_of k = None \<and> k \<in> set kws)"
    by (rule cluster_loop_sound [OF l]) simp_all
  have ne: "\<forall>(i, ks)\<in>set cl. ks \<noteq> []"
    by (rule cluster_loop_nonempty [OF l]) simp
  have a: "\<forall>c\<in>set cs. member_keywords c \<noteq> []
        \<and> (\<forall>k\<in>set (member_keywords c). bucket_of k = Some (intent c) \<and> k \<in> set kws)"
    using mem snd ne by fastforce
  have b: "\<forall>k\<in>set un. bucket_of k = None \<and> k \<in> set kws" using snd by blast
  have cmp: "\<forall>k\<in>set kws. case bucket_of k of
             Some i \<Rightarrow> \<exists>ks. (i, ks) \<in> set cl \<and> k \<in> set ks
           | None \<Rightarrow> k \<in> set un"
    using cluster_loop_complete [OF l] by blast
  have c: "\<forall>k\<in>set kws. case bucket_of k of
         Some i \<Rightarrow> \<exists>c\<in>set cs. intent c = i \<and> k \<in> set (member_keywords c)
       | None \<Rightarrow> k \<in> set un"
  proof
    fix k assume k: "k \<in> set kws"
    show "case bucket_of k of
         Some i \<Rightarrow> \<exists>c\<in>set cs. intent c = i \<and> k \<in> set (member_keywords c)
       | None \<Rightarrow> k \<in> set un"
    proof (cases "bucket_of k")
      case None
      then show ?thesis using cmp k by force
    next
      case (Some i)
      then obtain ks where "(i, ks) \<in> set cl" "k \<in> set ks" using cmp k by force
      then obtain c where "c \<in> set cs" "intent c = i" "member_keywords c = ks"
        using r(2) by force
      then show ?thesis using Some \<open>k \<in> set ks\<close> by auto
    qed
  qed
  have d: "un = filter (\<lambda>k. bucket_of k = None) kws"
    using cluster_loop_unclustered [of kws "[]" "[]"] l by simp
  show ?thesis using that [OF l r a b c d] .
qed

text \<open>
  Claim C6. Every keyword of a \<open>cluster_by_intent\<close> call is assigned to the intent
  category whose seed words have the largest intersection with the word set of the
  keyword; among several categories of largest overlap the first one in the order of the
  intent table wins; a keyword whose overlap with every category is 0 goes to the
  unclustered bucket, the "General" cluster. The call returns, and the keyword is a member
  of a cluster of that intent and of no cluster of another intent.
\<close>

theorem keyword_assigned_to_first_largest_overlap:
  assumes "k \<in> set kws"
  shows "\<exists>res. cluster_by_intent set_order kws kw_data = Inr res \<and>
     (((\<forall>i<length INTENT_CATEGORIES.
           card (set (findall_words (lower k)) \<inter> set (snd (INTENT_CATEGORIES ! i))) = 0)
        \<and> (\<exists>c\<in>set res. name c = ''General'' \<and> intent c = ''general''
              \<and> k \<in> set (member_keywords c))
        \<and> (\<forall>c\<in>set res. k \<in> set (member_keywords c) \<longrightarrow> intent c = ''general''))
      \<or> (\<exists>i<length INTENT_CATEGORIES.
           0 < card (set (findall_words (lower k)) \<inter> set (snd (INTENT_CATEGORIES ! i)))
           \<and> (\<forall>j<length INTENT_CATEGORIES.
                 card (set (findall_words (lower k)) \<inter> set (snd (INTENT_CATEGORIES ! j)))
                 \<le> card (set (findall_words (lower k)) \<inter> set (snd (INTENT_CATEGORIES ! i))))
           \<and> (\<forall>j<i. card (set (findall_words (lower k)) \<inter> set (snd (INTENT_CATEGORIES ! j)))
                 < card (set (findall_words (lower k)) \<inter> set (snd (INTENT_CATEGORIES ! i))))
           \<and> (\<exists>c\<in>set res. intent c = fst (INTENT_CATEGORIES ! i)
                 \<and> k \<in> set (member_keywords c))
           \<and> (\<forall>c\<in>set res. k \<in> set (member_keywords c)
                 \<longrightarrow> intent c = fst (INTENT_CATEGORIES ! i))))"
proof -
  obtain cl un res cs where f:
    "cluster_loop kws ([], []) = (cl, un)"
    "cluster_by_intent set_order kws kw_data = Inr res"
    "map (\<lambda>c. (intent c, member_keywords c)) cs = cl"
    "\<forall>c\<in>set cs. name c = title (intent c) @ '' Intent'' \<and> natural_queries c =
        generate_natural_queries set_order (intent c) (member_keywords c) 5"
    "if un = [] then set res = set cs
     else \<exists>s. set res = insert \<lparr>name = ''General'', intent = ''general'',
             member_keywords = un, keyword_count = length un, natural_queries = [],
             combined_score = s\<rparr> (set cs)"
    "\<forall>c\<in>set cs. member_keywords c \<noteq> []
        \<and> (\<forall>k\<in>set (member_keywords c). bucket_of k = Some (intent c) \<and> k \<in> set kws)"
    "\<forall>k\<in>set un. bucket_of k = None \<and> k \<in> set kws"
    "\<forall>k\<in>set kws. case bucket_of k of
         Some i \<Rightarrow> \<exists>c\<in>set cs. intent c = i \<and> k \<in> set (member_keywords c)
       | None \<Rightarrow> k \<in> set un"
    "un = filter (\<lambda>k. bucket_of k = None) kws"
    by (rule cluster_facts)
  have sub: "set cs \<subseteq> set res" using f(5) by (auto split: if_splits)
  have res_cases: "c \<in> set res \<Longrightarrow> c \<in> set cs \<or> (intent c = ''general'' \<and> name c = ''General''
     \<and> member_keywords c = un \<and> natural_queries c = [])" for c
    using f(5) by (auto split: if_splits)
  from bucket_of_cases [of k] show ?thesis
  proof (elim disjE conjE exE)
    assume b: "bucket_of k = None"
      and z: "\<forall>i<length INTENT_CATEGORIES.
        card (set (findall_words (lower k)) \<inter> set (snd (INTENT_CATEGORIES ! i))) = 0"
    have kun: "k \<in> set un" using f(8) assms b by force
    then have "un \<noteq> []" by auto
    then obtain s where "set res = insert \<lparr>name = ''General'', intent = ''general'',
             member_keywords = un, keyword_count = length un, natural_queries = [],
             combined_score = s\<rparr> (set cs)" using f(5) by auto
    then have g: "\<exists>c\<in>set res. name c = ''General'' \<and> intent c = ''general''
              \<and> k \<in> set (member_keywords c)"
      using kun by auto
    have u: "\<forall>c\<in>set res. k \<in> set (member_keywords c) \<longrightarrow> intent c = ''general''"
    proof (intro ballI impI)
      fix c assume c: "c \<in> set res" "k \<in> set (member_keywords c)"
      from res_cases [OF c(1)] show "intent c = ''general''"
      proof
        assume "c \<in> set cs"
        then have "bucket_of k = Some (intent c)" using f(6) c(2) by blast
        then show ?thesis using b by simp
      qed simp
    qed
    show ?thesis using f(2) z g u by blast
  next
    fix i
    assume i: "i < length INTENT_CATEGORIES"
      and b: "bucket_of k = Some (fst (INTENT_CATEGORIES ! i))"
      and pos: "0 < card (set (findall_words (lower k)) \<inter> set (snd (INTENT_CATEGORIES ! i)))"
      and mx: "\<forall>j<length INTENT_CATEGORIES.
              card (set (findall_words (lower k)) \<inter> set (snd (INTENT_CATEGORIES ! j)))
              \<le> card (set (findall_words (lower k)) \<inter> set (snd (INTENT_CATEGORIES ! i)))"
      and fs: "\<forall>j<i. card (set (findall_words (lower k)) \<inter> set (snd (INTENT_CATEGORIES ! j)))
              < card (set (findall_words (lower k)) \<inter> set (snd (INTENT_CATEGORIES ! i)))"
    have "\<exists>c\<in>set cs. intent c = fst (INTENT_CATEGORIES ! i) \<and> k \<in> set (member_keywords c)"
      using f(8) assms b by force
    then have g: "\<exists>c\<in>set res. intent c = fst (INTENT_CATEGORIES ! i)
        \<and> k \<in> set (member_keywords c)"
      using sub by blast
    have u: "\<forall>c\<in>set res. k \<in> set (member_keywords c)
        \<longrightarrow> intent c = fst (INTENT_CATEGORIES ! i)"
    proof (intro ballI impI)
      fix c assume c: "c \<in> set res" "k \<in> set (member_keywords c)"
      from res_cases [OF c(1)] show "intent c = fst (INTENT_CATEGORIES ! i)"
      proof
        assume "c \<in> set cs"
        then have "bucket_of k = Some (intent c)" using f(6) c(2) by blast
        then show ?thesis using b by simp
      next
        assume "intent c = ''general'' \<and> name c = ''General''
          \<and> member_keywords c = un \<and> natural_queries c = []"
        then have "k \<in> set un" using c(2) by simp
        then have "bucket_of k = None" using f(7) by blast
        then show ?thesis using b by simp
      qed
    qed
    show ?thesis using f(2) i pos mx fs g u by blast
  qed
qed

text \<open>
  The keyword "manage team" meets a seed word of \<open>manage\<close> and one of \<open>share\<close>;
  \<open>manage\<close> comes first in the table.
\<close>

theorem keyword_assigned_to_first_largest_overlap_witness:
  "match_intent ''manage team'' = (Some ''manage'', 1)
   \<and> (\<exists>res. cluster_by_intent id [''track expenses'', ''manage team'', ''hello world''] None
          = Inr res
        \<and> (\<exists>i<length INTENT_CATEGORIES.
              0 < card (set (findall_words (lower ''manage team''))
                        \<inter> set (snd (INTENT_CATEGORIES ! i)))
              \<and> (\<exists>c\<in>set res. intent c = fst (INTENT_CATEGORIES ! i)
                    \<and> ''manage team'' \<in> set (member_keywords c))))"
proof -
  have m: "match_intent ''manage team'' = (Some ''manage'', 1)" by code_simp
  have k: "''manage team'' \<in> set [''track expenses'', ''manage team'', ''hello world'']"
    by simp
  have o: "card (set (findall_words (lower ''manage team''))
      \<inter> set (snd (INTENT_CATEGORIES ! 1))) = 1" by code_simp
  have n: "(1::nat) < length INTENT_CATEGORIES" by code_simp
  have nz: "\<not> (\<forall>i<length INTENT_CATEGORIES.
      card (set (findall_words (lower ''manage team'')) \<inter> set (snd (INTENT_CATEGORIES ! i))) = 0)"
    using o n by (metis zero_neq_one)
  from keyword_assigned_to_first_largest_overlap [OF k, of id None] nz
  have "\<exists>res. cluster_by_intent id [''track expenses'', ''manage team'', ''hello world''] None
          = Inr res
        \<and> (\<exists>i<length INTENT_CATEGORIES.
              0 < card (set (findall_words (lower ''manage team''))
                        \<inter> set (snd (INTENT_CATEGORIES ! i)))
              \<and> (\<exists>c\<in>set res. intent c = fst (INTENT_CATEGORIES ! i)
                    \<and> ''manage team'' \<in> set (member_keywords c)))"
    by blast
  then show ?thesis using m by blast
qed

text \<open>
  Claim C3 (as amended). When the unclustered bucket of a \<open>cluster_by_intent\<close> call is
  not empty, the result has the "General" cluster, whose members are the unclustered
  keywords and whose natural-language queries are the empty list: no template, the generic
  fallback bank included, is applied to it. Every cluster of the result has at most 5
  queries (the default \<open>max_queries\<close>) and no duplicate query.
\<close>

theorem general_cluster_has_no_queries:
  assumes "\<exists>k\<in>set kws. bucket_of k = None"
  shows "\<exists>res. cluster_by_intent set_order kws kw_data = Inr res
     \<and> (\<exists>g\<in>set res. name g = ''General'' \<and> intent g = ''general''
           \<and> member_keywords g = filter (\<lambda>k. bucket_of k = None) kws
           \<and> natural_queries g = [])
     \<and> (\<forall>c\<in>set res. (name c = ''General'' \<or> intent c = ''general'' \<longrightarrow> natural_queries c = [])
           \<and> distinct (natural_queries c) \<and> length (natural_queries c) \<le> 5)"
proof -
  obtain cl un res cs where f:
    "cluster_loop kws ([], []) = (cl, un)"
    "cluster_by_intent set_order kws kw_data = Inr res"
    "map (\<lambda>c. (intent c, member_keywords c)) cs = cl"
    "\<forall>c\<in>set cs. name c = title (intent c) @ '' Intent'' \<and> natural_queries c =
        generate_natural_queries set_order (intent c) (member_keywords c) 5"
    "if un = [] then set res = set cs
     else \<exists>s. set res = insert \<lparr>name = ''General'', intent = ''general'',
             member_keywords = un, keyword_count = length un, natural_queries = [],
             combined_score = s\<rparr> (set cs)"
    "\<forall>c\<in>set cs. member_keywords c \<noteq> []
        \<and> (\<forall>k\<in>set (member_keywords c). bucket_of k = Some (intent c) \<and> k \<in> set kws)"
    "\<forall>k\<in>set un. bucket_of k = None \<and> k \<in> set kws"
    "\<forall>k\<in>set kws. case bucket_of k of
         Some i \<Rightarrow> \<exists>c\<in>set cs. intent c = i \<and> k \<in> set (member_keywords c)
       | None \<Rightarrow> k \<in> set un"
    "un = filter (\<lambda>k. bucket_of k = None) kws"
    by (rule cluster_facts)
  have "un \<noteq> []" using assms f(9) by (auto simp: filter_empty_conv)
  then obtain s where rs: "set res = insert \<lparr>name = ''General'', intent = ''general'',
             member_keywords = un, keyword_count = length un, natural_queries = [],
             combined_score = s\<rparr> (set cs)" using f(5) by auto
  have g: "\<exists>g\<in>set res. name g = ''General'' \<and> intent g = ''general''
           \<and> member_keywords g = filter (\<lambda>k. bucket_of k = None) kws
           \<and> natural_queries g = []"
    using rs f(9) by auto
  have all: "\<forall>c\<in>set res. (name c = ''General'' \<or> intent c = ''general'' \<longrightarrow> natural_queries c = [])
           \<and> distinct (natural_queries c) \<and> length (natural_queries c) \<le> 5"
  proof
    fix c assume "c \<in> set res"
    then consider (gen) "c = \<lparr>name = ''General'', intent = ''general'',
             member_keywords = un, keyword_count = length un, natural_queries = [],
             combined_score = s\<rparr>" | (int) "c \<in> set cs" using rs by auto
    then show "(name c = ''General'' \<or> intent c = ''general'' \<longrightarrow> natural_queries c = [])
           \<and> distinct (natural_queries c) \<and> length (natural_queries c) \<le> 5"
    proof cases
      case gen
      then show ?thesis by simp
    next
      case int
      then obtain k where "k \<in> set (member_keywords c)" "bucket_of k = Some (intent c)"
        using f(6) by (metis last_in_set)
      then have ig: "intent c \<noteq> ''general''" using bucket_of_name by blast
      have q: "natural_queries c = generate_natural_queries set_order (intent c) (member_keywords c) 5"
        using f(4) int by blast
      have "distinct (natural_queries c) \<and> int (length (natural_queries c)) \<le> 5"
        unfolding q by (rule generate_natural_queries_capped) simp
      moreover have "name c \<noteq> ''General''"
      proof
        assume "name c = ''General''"
        then have "last (title (intent c) @ '' Intent'') = last ''General''"
          using f(4) int by simp
        then show False by simp
      qed
      ultimately show ?thesis using ig by simp
    qed
  qed
  show ?thesis using f(2) g all by blast
qed

text \<open>A list with one keyword that meets no seed word.\<close>

theorem general_cluster_has_no_queries_witness:
  "bucket_of ''hello world'' = None
   \<and> (\<exists>res. cluster_by_intent id [''track expenses'', ''manage team'', ''hello world''] None
          = Inr res
        \<and> (\<exists>g\<in>set res. name g = ''General'' \<and> member_keywords g = [''hello world'']
              \<and> natural_queries g = []))"
proof -
  have b: "bucket_of ''hello world'' = None" by code_simp
  have f: "filter (\<lambda>k. bucket_of k = None) [''track expenses'', ''manage team'', ''hello world'']
      = [''hello world'']" by code_simp
  have "\<exists>k\<in>set [''track expenses'', ''manage team'', ''hello world'']. bucket_of k = None"
    using b by simp
  from general_cluster_has_no_queries [OF this, of id None]
  have "\<exists>res. cluster_by_intent id [''track expenses'', ''manage team'', ''hello world''] None
          = Inr res
        \<and> (\<exists>g\<in>set res. name g = ''General'' \<and> member_keywords g = [''hello world'']
              \<and> natural_queries g = [])"
    unfolding f by blast
  then show ?thesis using b by blast
qed

text \<open>
  Claim C3 as stated fails: the only member of this "General" cluster yields the object
  term "hello world", for which the generic fallback bank gives two queries, yet the
  cluster has none. (With one object the iteration order of the set plays no part.)
\<close>

theorem general_cluster_queries_counterexample:
  "cluster_by_intent id [''hello world''] None =
     Inr [\<lparr>name = ''General'', intent = ''general'', member_keywords = [''hello world''],
           keyword_count = 1, natural_queries = [], combined_score = 10\<rparr>]
   \<and> generate_natural_queries id ''general'' [''hello world''] 5 =
       [''apps for hello world'', ''best hello world app'']"
  by code_simp

section \<open>Validation of the platform and exceptions of the core\<close>






end
